theory Spec2Isabelle
  imports Main "HOL-Library.AList"
begin

section \<open>Tag index (lib/tags.ts)\<close>

text \<open>
  A tag is a name/value pair of strings. A JavaScript \<open>Map\<close> keeps its keys in
  insertion order and \<open>Map.set\<close> on a key that is already present replaces the value
  in place; an association list with \<open>AList.update\<close> (replace in place, otherwise append
  at the end) and \<open>map_of\<close> (lookup) behaves the same way, so \<open>TagMap\<close> is such a list.
\<close>

record ArweaveTag =
  tag_name :: string
  tag_value :: string

type_synonym TagMap = "(string \<times> string list) list"

text \<open>The body of the \<open>for (const tag of tags)\<close> loop of \<open>tagsToMap\<close>.\<close>

definition tagsToMap_step :: "TagMap \<Rightarrow> ArweaveTag \<Rightarrow> TagMap" where
  "tagsToMap_step m tag =
     (let existing = (case map_of m (tag_name tag) of None \<Rightarrow> [] | Some vs \<Rightarrow> vs)
      in AList.update (tag_name tag) (existing @ [tag_value tag]) m)"

text \<open>\<open>tagsToMap\<close>: \<open>None\<close> stands for a \<open>null\<close> or \<open>undefined\<close> argument.\<close>

fun tagsToMap :: "ArweaveTag list option \<Rightarrow> TagMap" where
  "tagsToMap None = []"
| "tagsToMap (Some tags) = foldl tagsToMap_step [] tags"

text \<open>\<open>tagFirst\<close>: \<open>tags.get(name)?.[0]\<close>, with \<open>undefined\<close> as \<open>None\<close>.\<close>

definition tagFirst :: "TagMap \<Rightarrow> string \<Rightarrow> string option" where
  "tagFirst tags name =
     (case map_of tags name of
        None \<Rightarrow> None
      | Some vs \<Rightarrow> (case vs of [] \<Rightarrow> None | v # _ \<Rightarrow> Some v))"

text \<open>The values that a tag list gives to one name, in the order of the list.\<close>

definition valuesOf :: "string \<Rightarrow> ArweaveTag list \<Rightarrow> string list" where
  "valuesOf n tags = map tag_value (filter (\<lambda>t. tag_name t = n) tags)"

section \<open>Latest-state resolver (lib/arweave.ts)\<close>

text \<open>
  \<open>ArweaveTxNode\<close> and \<open>ArweaveTxEdge\<close> as the source declares them. A block that is
  \<open>null\<close> is \<open>None\<close>; block heights are integers.
\<close>

record Block =
  height :: int
  timestamp :: int

record ArweaveTxNode =
  node_id :: string
  owner_address :: string
  block :: "Block option"
  tags :: "ArweaveTag list"

record ArweaveTxEdge =
  cursor :: string
  node :: ArweaveTxNode

text \<open>\<open>x.block?.height ?? -1\<close>.\<close>

definition heightOf :: "ArweaveTxNode \<Rightarrow> int" where
  "heightOf n = (case block n of None \<Rightarrow> - 1 | Some b \<Rightarrow> height b)"

text \<open>\<open>tagFirst(tagsToMap(node.tags), "Self-Id") ?? ""\<close>.\<close>

definition selfIdOf :: "ArweaveTxNode \<Rightarrow> string" where
  "selfIdOf n =
     (case tagFirst (tagsToMap (Some (tags n))) ''Self-Id'' of None \<Rightarrow> '''' | Some s \<Rightarrow> s)"

text \<open>
  The body of the loop of \<open>groupLatestHeadsBySelfId\<close>; \<open>byId\<close> is the \<open>Map\<close> from
  Self-Id to node, in insertion order. \<open>if (!selfId) continue\<close> skips the empty string,
  which is also what a missing tag has become.
\<close>

definition groupLatest_step ::
  "(string \<times> ArweaveTxNode) list \<Rightarrow> ArweaveTxEdge \<Rightarrow> (string \<times> ArweaveTxNode) list" where
  "groupLatest_step byId edge =
     (let nd = node edge;
          selfId = selfIdOf nd
      in if selfId = '''' then byId
         else
           let existing = map_of byId selfId;
               nodeHeight = heightOf nd;
               existingHeight = (case existing of None \<Rightarrow> - 1 | Some e \<Rightarrow> heightOf e)
           in if existing = None \<or> nodeHeight > existingHeight
              then AList.update selfId nd byId
              else byId)"

text \<open>
  \<open>[...byId.values()].sort((a, b) => height b - height a)\<close>: \<open>Array.prototype.sort\<close>
  is stable, and the comparator orders by descending height, which is ascending order
  of the negated height; \<open>sort_key\<close> is a stable sort.
\<close>

definition groupLatestHeadsBySelfId :: "ArweaveTxEdge list \<Rightarrow> ArweaveTxNode list" where
  "groupLatestHeadsBySelfId edges =
     sort_key (\<lambda>n. - heightOf n) (map snd (foldl groupLatest_step [] edges))"

section \<open>Auxiliary notions for the resolver proofs\<close>

text \<open>The earliest node of a list with a given identity and height.\<close>

definition firstWith :: "string \<Rightarrow> int \<Rightarrow> ArweaveTxNode list \<Rightarrow> ArweaveTxNode option" where
  "firstWith k h ns = find (\<lambda>m. selfIdOf m = k \<and> heightOf m = h) ns"

text \<open>
  The loop invariant of \<open>groupLatestHeadsBySelfId\<close>: after the edges \<open>es\<close>, every entry of
  the map is a node of \<open>es\<close> stored under its own non-empty Self-Id, of the greatest height
  of that identity and the earliest of that height; and every non-empty identity of \<open>es\<close>
  has an entry.
\<close>

definition winners_ok :: "ArweaveTxEdge list \<Rightarrow> (string \<times> ArweaveTxNode) list \<Rightarrow> bool" where
  "winners_ok es m \<longleftrightarrow>
     (\<forall>k n. map_of m k = Some n \<longrightarrow>
        k \<noteq> '''' \<and> selfIdOf n = k \<and> n \<in> node ` set es \<and>
        (\<forall>e\<in>set es. selfIdOf (node e) = k \<longrightarrow> heightOf (node e) \<le> heightOf n) \<and>
        firstWith k (heightOf n) (map node es) = Some n) \<and>
     (\<forall>e\<in>set es. selfIdOf (node e) \<noteq> '''' \<longrightarrow> map_of m (selfIdOf (node e)) \<noteq> None)"

section \<open>JSON values\<close>

text \<open>
  The value that \<open>JSON.parse\<close> returns. An object is the list of its properties and
  \<open>map_of\<close> reads one. The code never computes with a number of a payload: it tests its
  type, tests whether it is zero, and prints it. A number is therefore represented by the
  text that JavaScript prints for it (\<open>0\<close>, \<open>-7\<close>, \<open>0.5\<close>, \<open>1e+21\<close>), which is different for
  different numbers; zero is \<open>0\<close>.
\<close>

datatype json =
    JNull
  | JBool bool
  | JNum string
  | JStr string
  | JArr "json list"
  | JObj "(string \<times> json) list"

text \<open>
  \<open>v?.key\<close> and \<open>v[key]\<close> for the property names the code reads (none of them is a
  property of a string, of an array or of \<open>Object.prototype\<close>): the property of an
  object, \<open>undefined\<close> (\<open>None\<close>) otherwise.
\<close>

fun getField :: "json \<Rightarrow> string \<Rightarrow> json option" where
  "getField (JObj kvs) key = map_of kvs key"
| "getField _ key = None"

text \<open>\<open>typeof v === "object" && v !== null\<close> (\<open>isRecord\<close> in \<open>schema.ts\<close>): objects and arrays.\<close>

fun isRecord :: "json \<Rightarrow> bool" where
  "isRecord (JObj _) = True"
| "isRecord (JArr _) = True"
| "isRecord _ = False"

text \<open>\<open>typeof v === "string"\<close> for a value that may be \<open>undefined\<close>.\<close>

fun isString :: "json option \<Rightarrow> bool" where
  "isString (Some (JStr _)) = True"
| "isString _ = False"

text \<open>\<open>Array.isArray(v)\<close> for a value that may be \<open>undefined\<close>: the elements of the array
  when it is one.\<close>

fun asArray :: "json option \<Rightarrow> json list option" where
  "asArray (Some (JArr xs)) = Some xs"
| "asArray _ = None"

text \<open>\<open>getString\<close> of \<open>schema.ts\<close>: the property when it is a string.\<close>

fun getString :: "json \<Rightarrow> string \<Rightarrow> string option" where
  "getString obj key = (case getField obj key of Some (JStr s) \<Rightarrow> Some s | _ \<Rightarrow> None)"

text \<open>Truthiness of a JSON value that may be \<open>undefined\<close>, and of an optional string.\<close>

fun truthy :: "json option \<Rightarrow> bool" where
  "truthy None = False"
| "truthy (Some JNull) = False"
| "truthy (Some (JBool b)) = b"
| "truthy (Some (JNum n)) = (n \<noteq> ''0'')"
| "truthy (Some (JStr s)) = (s \<noteq> [])"
| "truthy (Some (JArr _)) = True"
| "truthy (Some (JObj _)) = True"

fun truthyStr :: "string option \<Rightarrow> bool" where
  "truthyStr None = False"
| "truthyStr (Some s) = (s \<noteq> [])"

section \<open>Lenient snapshot parser (lib/schema.ts)\<close>

text \<open>
  \<open>SelfSnapshot\<close> as the source declares it; an optional field is an \<open>option\<close>, and the
  field \<open>notes\<close> is called \<open>snapshot_notes\<close>. The edge type stays the string that it is at
  run time. \<open>ParseResult\<close> is a sum: \<open>Inl\<close> carries the error message, \<open>Inr\<close> the value.
\<close>

record IdeaRef =
  idea_id :: string
  tx_id :: string

record SnapshotEdge =
  from_idea_id :: string
  to_idea_id :: string
  edge_type :: string

record SelfSnapshot =
  schema :: string
  self_id :: string
  parent_snapshot_tx :: "string option"
  ideas :: "IdeaRef list"
  edges :: "SnapshotEdge list option"
  snapshot_notes :: "string option"
  created_at :: "string option"

definition allowed :: "string list" where
  "allowed = [''supports'', ''contradicts'', ''refines'', ''depends-on'', ''derived-from'']"

text \<open>The loop over \<open>ideasRaw\<close>: an entry is kept when it is a record with non-empty
  string \<open>idea_id\<close> and \<open>tx_id\<close>, skipped otherwise.\<close>

fun parseIdeas :: "json list \<Rightarrow> IdeaRef list" where
  "parseIdeas [] = []"
| "parseIdeas (idea # rest) =
     (if \<not> isRecord idea then parseIdeas rest
      else
        let i = getString idea ''idea_id'';
            t = getString idea ''tx_id''
        in if truthyStr i \<and> truthyStr t
           then \<lparr>idea_id = the i, tx_id = the t\<rparr> # parseIdeas rest
           else parseIdeas rest)"

text \<open>The loop over \<open>edgesRaw\<close>: an entry is kept when it is a record with non-empty
  string \<open>from_idea_id\<close>, \<open>to_idea_id\<close> and \<open>type\<close>, and the type is an allowed one.\<close>

fun parseEdges :: "json list \<Rightarrow> SnapshotEdge list" where
  "parseEdges [] = []"
| "parseEdges (edge # rest) =
     (if \<not> isRecord edge then parseEdges rest
      else
        let f = getString edge ''from_idea_id'';
            t = getString edge ''to_idea_id'';
            typeRaw = getString edge ''type''
        in if \<not> truthyStr f \<or> \<not> truthyStr t \<or> \<not> truthyStr typeRaw then parseEdges rest
           else if the typeRaw \<notin> set allowed then parseEdges rest
           else \<lparr>from_idea_id = the f, to_idea_id = the t, edge_type = the typeRaw\<rparr>
                  # parseEdges rest)"

definition parseSelfSnapshot :: "json \<Rightarrow> string + SelfSnapshot" where
  "parseSelfSnapshot json =
     (if \<not> isRecord json then Inl ''SelfSnapshot is not an object''
      else
        let sch = getString json ''schema'' in
        if sch \<noteq> Some ''afterlife.snapshot@1''
        then Inl (''Unexpected SelfSnapshot schema: ''
                   @ (case sch of None \<Rightarrow> ''missing'' | Some s \<Rightarrow> s))
        else
          let sid = getString json ''self_id'' in
          if \<not> truthyStr sid then Inl ''SelfSnapshot.self_id missing''
          else
            (case asArray (getField json ''ideas'') of
               Some ideasRaw \<Rightarrow>
                 let idea_list = parseIdeas ideasRaw in
                 if length idea_list = 0 then Inl ''SelfSnapshot.ideas empty/invalid''
                 else
                   Inr \<lparr>schema = ''afterlife.snapshot@1'',
                        self_id = the sid,
                        parent_snapshot_tx = getString json ''parent_snapshot_tx'',
                        ideas = idea_list,
                        edges = (case asArray (getField json ''edges'') of
                                   Some edgesRaw \<Rightarrow> Some (parseEdges edgesRaw)
                                 | None \<Rightarrow> None),
                        snapshot_notes = getString json ''notes'',
                        created_at = getString json ''created_at''\<rparr>
             | None \<Rightarrow> Inl ''SelfSnapshot.ideas missing''))"

section \<open>Strict validators (skills/afterlife-verify/scripts/verify.mjs)\<close>

text \<open>
  The validators return a list of messages. Each message of the source is a constructor
  here; a message built from a template carries the value that the template prints.
\<close>

datatype verify_error =
    TxNotFound json
  | MissingNamespaceTags
  | MissingEntityTag
  | HeadNotObject
  | HeadSchema
  | HeadSelfIdMissing
  | HeadNameMissing
  | HeadSnapshotTxMissing
  | SnapshotNotObject
  | SnapshotSchema
  | SnapshotSelfIdMissing
  | SnapshotIdeasMissingEmpty
  | SnapshotIdeasInvalidItem
  | DuplicateIdeaId string
  | SnapshotEdgesInvalidItem
  | EdgeUnknownIdeaIds json
  | InvalidEdgeType "json option"

fun validateHeadPayload :: "json \<Rightarrow> verify_error list" where
  "validateHeadPayload payload =
     (if \<not> isRecord payload then [HeadNotObject] else [])
     @ (if getField payload ''schema'' \<noteq> Some (JStr ''afterlife.selfhead@1'') then [HeadSchema] else [])
     @ (if \<not> isString (getField payload ''self_id'') then [HeadSelfIdMissing] else [])
     @ (if \<not> isString (getField payload ''name'') then [HeadNameMissing] else [])
     @ (if \<not> isString (getField payload ''snapshot_tx'') then [HeadSnapshotTxMissing] else [])"

text \<open>\<open>ids.has(v)\<close> for the set \<open>ids\<close> of strings: a value that is not a string is
  never a member.\<close>

fun idsHas :: "string list \<Rightarrow> json option \<Rightarrow> bool" where
  "idsHas ids (Some (JStr s)) = (s \<in> set ids)"
| "idsHas ids _ = False"

definition EDGE_TYPES :: "string list" where
  "EDGE_TYPES = [''supports'', ''contradicts'', ''refines'', ''depends-on'', ''derived-from'']"

text \<open>
  The loop over \<open>payload.ideas\<close>, with the error list and the set \<open>ids\<close> as state.
\<close>

fun validateIdeas ::
  "json list \<Rightarrow> verify_error list \<Rightarrow> string list \<Rightarrow> verify_error list \<times> string list" where
  "validateIdeas [] errors ids = (errors, ids)"
| "validateIdeas (it # rest) errors ids =
     (if \<not> isRecord it \<or> \<not> isString (getField it ''idea_id'')
           \<or> \<not> isString (getField it ''tx_id'')
      then validateIdeas rest (errors @ [SnapshotIdeasInvalidItem]) ids
      else
        let i = the (getString it ''idea_id'') in
        validateIdeas rest
          (if i \<in> set ids then errors @ [DuplicateIdeaId i] else errors)
          (ids @ [i]))"

text \<open>The loop over \<open>payload.edges\<close>; \<open>ids\<close> is only read.\<close>

fun validateEdges :: "json list \<Rightarrow> string list \<Rightarrow> verify_error list \<Rightarrow> verify_error list" where
  "validateEdges [] ids errors = errors"
| "validateEdges (edge # rest) ids errors =
     (if \<not> isRecord edge
      then validateEdges rest ids (errors @ [SnapshotEdgesInvalidItem])
      else
        validateEdges rest ids
          (errors
           @ (if \<not> idsHas ids (getField edge ''from_idea_id'')
                  \<or> \<not> idsHas ids (getField edge ''to_idea_id'')
              then [EdgeUnknownIdeaIds edge] else [])
           @ (if \<not> idsHas EDGE_TYPES (getField edge ''type'')
              then [InvalidEdgeType (getField edge ''type'')] else [])))"

definition validateSnapshotPayload :: "json \<Rightarrow> verify_error list" where
  "validateSnapshotPayload payload =
     (let errors0 =
            (if \<not> isRecord payload then [SnapshotNotObject] else [])
            @ (if getField payload ''schema'' \<noteq> Some (JStr ''afterlife.snapshot@1'')
               then [SnapshotSchema] else [])
            @ (if \<not> isString (getField payload ''self_id'') then [SnapshotSelfIdMissing] else [])
            @ (case asArray (getField payload ''ideas'') of
                 Some its \<Rightarrow> if length its = 0 then [SnapshotIdeasMissingEmpty] else []
               | None \<Rightarrow> [SnapshotIdeasMissingEmpty]);
          (errors1, ids) =
            (case asArray (getField payload ''ideas'') of
               Some its \<Rightarrow> validateIdeas its errors0 []
             | None \<Rightarrow> (errors0, []))
      in case asArray (getField payload ''edges'') of
           Some es \<Rightarrow> validateEdges es ids errors1
         | None \<Rightarrow> errors1)"

text \<open>The set \<open>ids\<close> that \<open>validateSnapshotPayload\<close> has built when it reaches the edges.\<close>

definition collectedIds :: "json \<Rightarrow> string list" where
  "collectedIds payload =
     (case asArray (getField payload ''ideas'') of
        Some its \<Rightarrow> snd (validateIdeas its [] [])
      | None \<Rightarrow> [])"

text \<open>
  The idea ids that a snapshot document declares, read off the document itself: the
  \<open>idea_id\<close> strings of the entries of its \<open>ideas\<close> array, in order (none when \<open>ideas\<close> is
  not an array). This is the notion of the data model, not a part of the code.
\<close>

definition declaredIdeaIds :: "json \<Rightarrow> string list" where
  "declaredIdeaIds doc =
     (case asArray (getField doc ''ideas'') of
        Some its \<Rightarrow> List.map_filter (\<lambda>it. getString it ''idea_id'') its
      | None \<Rightarrow> [])"

section \<open>Gateway list (lib/arweave.ts)\<close>

text \<open>
  \<open>getGateways\<close> returns an array, and whether that array is a new one or the module's own
  \<open>DEFAULT_GATEWAYS\<close> is what a caller that writes into the result would observe. Arrays
  therefore live in a store: a reference is a number, \<open>arrays\<close> gives the content of a
  reference and \<open>next_ref\<close> is the first reference not yet allocated.
\<close>

record js_heap =
  arrays :: "nat \<Rightarrow> string list"
  next_ref :: nat

text \<open>A new array (an array literal, or the result of \<open>slice\<close>).\<close>

definition alloc :: "string list \<Rightarrow> js_heap \<Rightarrow> nat \<times> js_heap" where
  "alloc xs h = (next_ref h, h\<lparr>arrays := (arrays h)(next_ref h := xs), next_ref := Suc (next_ref h)\<rparr>)"

text \<open>The module-level constant: its reference, and the content it is initialised with.\<close>

definition DEFAULT_GATEWAYS_ref :: nat where
  "DEFAULT_GATEWAYS_ref = 0"

definition DEFAULT_GATEWAYS :: "string list" where
  "DEFAULT_GATEWAYS = [''https://arweave.net'', ''https://ar-io.dev'']"

definition module_heap :: js_heap where
  "module_heap = \<lparr>arrays = (\<lambda>r. [])(DEFAULT_GATEWAYS_ref := DEFAULT_GATEWAYS), next_ref = 1\<rparr>"

text \<open>
  \<open>String.prototype.trim\<close> removes white space and line terminators at both ends. A
  \<open>char\<close> is a code unit below 256 here, and these are the ones of them that \<open>trim\<close>
  removes: tab, line feed, vertical tab, form feed, carriage return, space and the
  no-break space.
\<close>

definition isWhiteSpace :: "char \<Rightarrow> bool" where
  "isWhiteSpace c \<longleftrightarrow> (of_char c :: nat) \<in> {9, 10, 11, 12, 13, 32, 160}"

definition trim :: "string \<Rightarrow> string" where
  "trim s = rev (dropWhile isWhiteSpace (rev (dropWhile isWhiteSpace s)))"

text \<open>
  \<open>localStorage\<close> is \<open>None\<close> where the global is undefined, and otherwise the function
  \<open>getItem\<close>, which gives \<open>None\<close> for \<open>null\<close>.
\<close>

type_synonym storage = "(string \<Rightarrow> string option) option"

text \<open>\<open>typeof localStorage !== "undefined" ? localStorage.getItem("afterlifeGatewayUrl") : null\<close>.\<close>

definition storedOverride :: "storage \<Rightarrow> string option" where
  "storedOverride localStorage =
     (case localStorage of None \<Rightarrow> None | Some getItem \<Rightarrow> getItem ''afterlifeGatewayUrl'')"

definition getGateways :: "storage \<Rightarrow> js_heap \<Rightarrow> nat \<times> js_heap" where
  "getGateways localStorage h =
     (let override = storedOverride localStorage;
          cleaned = map_option trim override
      in if truthyStr cleaned
         then alloc (the cleaned # arrays h DEFAULT_GATEWAYS_ref) h
         else alloc (arrays h DEFAULT_GATEWAYS_ref) h)"

section \<open>Query and fetch clients (lib/arweave.ts)\<close>

text \<open>
  The network is a function from a URL and a request to what \<open>fetch\<close> does with it: the
  promise is rejected with an \<open>Error\<close> (a network failure, or the abort that
  \<open>fetchWithTimeout\<close> sends when its timer fires), or there is a response with a status
  and a body. The body is the JSON value of its text, \<open>None\<close> when the text is not JSON;
  a failure while the body is read is not told apart from a rejected \<open>fetch\<close>. The pause
  of 120 ms after a failed attempt is not modelled.
\<close>

datatype request = GET | POST string json

datatype fetch_result = Rejected string | Responded nat "json option"

type_synonym network = "string \<Rightarrow> request \<Rightarrow> fetch_result"

text \<open>The URLs fetched so far, in order: what a mock of \<open>fetch\<close> records.\<close>

type_synonym calls = "string list"

text \<open>
  Everything that is thrown inside the two \<open>try\<close> blocks is an instance of \<open>Error\<close>. Each
  constructor is one throw site; a message built from a template carries the values that
  the template prints.
\<close>

datatype js_error =
    FetchRejected string
  | HttpStatus string nat
  | BodyNotJson
  | TypeError
  | GraphqlErrors "json list"
  | MissingData string
  | Failed string

text \<open>\<open>res.ok\<close>.\<close>

definition response_ok :: "nat \<Rightarrow> bool" where
  "response_ok status \<longleftrightarrow> 200 \<le> status \<and> status \<le> 299"

definition fetchWithTimeout :: "network \<Rightarrow> string \<Rightarrow> request \<Rightarrow> calls \<Rightarrow> fetch_result \<times> calls" where
  "fetchWithTimeout net input init calls = (net input init, calls @ [input])"

text \<open>
  What \<open>if (json.errors?.length) throw new Error(json.errors.map((e) => e.message).join("; "))\<close>
  throws, from the value of \<open>json.errors\<close>: nothing when the length is missing or falsy;
  a \<open>TypeError\<close> when the value has a truthy length and no \<open>map\<close> method (a non-empty
  string, an object with a \<open>length\<close> property) or when an element is \<open>null\<close>; the
  error of the joined messages otherwise.
\<close>

fun thrownByErrors :: "json option \<Rightarrow> js_error option" where
  "thrownByErrors (Some (JArr es)) =
     (if es = [] then None else if JNull \<in> set es then Some TypeError else Some (GraphqlErrors es))"
| "thrownByErrors (Some (JStr s)) = (if s = [] then None else Some TypeError)"
| "thrownByErrors (Some (JObj kvs)) = (if truthy (map_of kvs ''length'') then Some TypeError else None)"
| "thrownByErrors _ = None"

text \<open>The body of the \<open>try\<close> block of \<open>graphqlRequest\<close>, for one endpoint.\<close>

definition graphqlTry ::
  "network \<Rightarrow> string \<Rightarrow> json \<Rightarrow> string \<Rightarrow> calls \<Rightarrow> (js_error + json) \<times> calls" where
  "graphqlTry net query variables endpoint calls =
     (let (res, calls') = fetchWithTimeout net endpoint (POST query variables) calls
      in ((case res of
             Rejected msg \<Rightarrow> Inl (FetchRejected msg)
           | Responded status body \<Rightarrow>
               if \<not> response_ok status then Inl (HttpStatus (''GraphQL '' @ endpoint) status)
               else
                 (case body of
                    None \<Rightarrow> Inl BodyNotJson
                  | Some json \<Rightarrow>
                      if json = JNull then Inl TypeError
                      else
                        (case thrownByErrors (getField json ''errors'') of
                           Some e \<Rightarrow> Inl e
                         | None \<Rightarrow>
                             if \<not> truthy (getField json ''data'')
                             then Inl (MissingData (''GraphQL '' @ endpoint))
                             else Inr (the (getField json ''data''))))),
          calls'))"

text \<open>
  The loop of \<open>graphqlRequest\<close>; \<open>lastErr\<close> is \<open>None\<close> while it is \<open>undefined\<close>. The last
  line throws \<open>lastErr\<close> when it is an \<open>Error\<close>, a new one otherwise.
\<close>

fun graphqlRequest_loop ::
  "network \<Rightarrow> string \<Rightarrow> json \<Rightarrow> string list \<Rightarrow> js_error option \<Rightarrow> calls
     \<Rightarrow> (js_error + json) \<times> calls" where
  "graphqlRequest_loop net query variables [] lastErr calls =
     (Inl (case lastErr of Some e \<Rightarrow> e | None \<Rightarrow> Failed ''GraphQL request failed''), calls)"
| "graphqlRequest_loop net query variables (endpoint # rest) lastErr calls =
     (case graphqlTry net query variables endpoint calls of
        (Inr d, calls') \<Rightarrow> (Inr d, calls')
      | (Inl err, calls') \<Rightarrow> graphqlRequest_loop net query variables rest (Some err) calls')"

definition DEFAULT_GRAPHQL_ENDPOINTS :: "string list" where
  "DEFAULT_GRAPHQL_ENDPOINTS = [''https://arweave.net/graphql'', ''https://ar-io.dev/graphql'']"

definition graphqlRequest ::
  "network \<Rightarrow> string \<Rightarrow> json \<Rightarrow> string list \<Rightarrow> calls \<Rightarrow> (js_error + json) \<times> calls" where
  "graphqlRequest net query variables endpoints calls =
     graphqlRequest_loop net query variables endpoints None calls"

text \<open>\<open>gw.replace(/\/$/, "")\<close>: one slash at the end is removed.\<close>

definition stripSlash :: "string \<Rightarrow> string" where
  "stripSlash gw = (if gw \<noteq> [] \<and> last gw = CHR ''/'' then butlast gw else gw)"

text \<open>The body of the \<open>try\<close> block of \<open>fetchTxJson\<close>, for one gateway.\<close>

definition fetchTxJsonTry ::
  "network \<Rightarrow> string \<Rightarrow> string \<Rightarrow> calls \<Rightarrow> (js_error + json) \<times> calls" where
  "fetchTxJsonTry net txId gw calls =
     (let url = stripSlash gw @ ''/'' @ txId;
          (res, calls') = fetchWithTimeout net url GET calls
      in ((case res of
             Rejected msg \<Rightarrow> Inl (FetchRejected msg)
           | Responded status body \<Rightarrow>
               if \<not> response_ok status then Inl (HttpStatus (''Gateway '' @ gw) status)
               else (case body of None \<Rightarrow> Inl BodyNotJson | Some json \<Rightarrow> Inr json)),
          calls'))"

fun fetchTxJson_loop ::
  "network \<Rightarrow> string \<Rightarrow> string list \<Rightarrow> js_error option \<Rightarrow> calls \<Rightarrow> (js_error + json) \<times> calls" where
  "fetchTxJson_loop net txId [] lastErr calls =
     (Inl (case lastErr of Some e \<Rightarrow> e | None \<Rightarrow> Failed ''Failed to fetch tx JSON''), calls)"
| "fetchTxJson_loop net txId (gw # rest) lastErr calls =
     (case fetchTxJsonTry net txId gw calls of
        (Inr json, calls') \<Rightarrow> (Inr json, calls')
      | (Inl err, calls') \<Rightarrow> fetchTxJson_loop net txId rest (Some err) calls')"

definition fetchTxJson ::
  "network \<Rightarrow> string \<Rightarrow> string list \<Rightarrow> calls \<Rightarrow> (js_error + json) \<times> calls" where
  "fetchTxJson net txId gateways calls = fetchTxJson_loop net txId gateways None calls"

section \<open>Chain verifier (skills/afterlife-verify/scripts/verify.mjs)\<close>

text \<open>
  The script is untyped: a transaction id, a tag or a node is whatever JSON the services
  returned, so the model keeps them as \<open>json\<close> values. \<open>jsToString\<close> is the conversion that
  a template literal applies to such a value.
\<close>

fun joinWith :: "string \<Rightarrow> string list \<Rightarrow> string" where
  "joinWith sep [] = []"
| "joinWith sep [x] = x"
| "joinWith sep (x # y # rest) = x @ sep @ joinWith sep (y # rest)"

fun jsToString :: "json \<Rightarrow> string" where
  "jsToString JNull = ''null''"
| "jsToString (JBool b) = (if b then ''true'' else ''false'')"
| "jsToString (JNum n) = n"
| "jsToString (JStr s) = s"
| "jsToString (JArr xs) = joinWith '','' (map (\<lambda>x. if x = JNull then [] else jsToString x) xs)"
| "jsToString (JObj kvs) = ''[object Object]''"

definition GRAPHQL_ENDPOINTS :: "string list" where
  "GRAPHQL_ENDPOINTS = [''https://arweave.net/graphql'', ''https://ar-io.dev/graphql'']"

definition GATEWAYS :: "string list" where
  "GATEWAYS = [''https://arweave.net'', ''https://ar-io.dev'']"

text \<open>
  \<open>tagsToMap\<close> of the script, on the JSON value of \<open>meta.tags\<close>. The parameter has the
  default \<open>[]\<close>, which applies to \<open>undefined\<close> only. \<open>for ... of\<close> throws a \<open>TypeError\<close> on a
  value that is not iterable, it goes through the characters of a string, and reading
  \<open>tag.name\<close> throws on \<open>null\<close>. The keys and values of the \<open>Map\<close> are whatever the tags
  hold (\<open>None\<close> is \<open>undefined\<close>). Keys are compared structurally here; JavaScript compares
  object keys by identity, which no lookup of the script, all by string keys, can see.
\<close>

type_synonym vTagMap = "(json option \<times> json option list) list"

fun vTagsToMap_loop :: "json list \<Rightarrow> vTagMap \<Rightarrow> js_error + vTagMap" where
  "vTagsToMap_loop [] out = Inr out"
| "vTagsToMap_loop (tag # rest) out =
     (if tag = JNull then Inl TypeError
      else
        let list = (case map_of out (getField tag ''name'') of None \<Rightarrow> [] | Some l \<Rightarrow> l)
        in vTagsToMap_loop rest
             (AList.update (getField tag ''name'') (list @ [getField tag ''value'']) out))"

fun vTagsToMap :: "json option \<Rightarrow> js_error + vTagMap" where
  "vTagsToMap None = Inr []"
| "vTagsToMap (Some (JArr ts)) = vTagsToMap_loop ts []"
| "vTagsToMap (Some (JStr s)) = vTagsToMap_loop (map (\<lambda>c. JStr [c]) s) []"
| "vTagsToMap (Some _) = Inl TypeError"

text \<open>\<open>tags.get(name)?.[0]\<close>.\<close>

definition vTagFirst :: "vTagMap \<Rightarrow> string \<Rightarrow> json option" where
  "vTagFirst tgs name =
     (case map_of tgs (Some (JStr name)) of
        None \<Rightarrow> None
      | Some l \<Rightarrow> (case l of [] \<Rightarrow> None | v # _ \<Rightarrow> v))"

definition hasAfterlifeNamespace :: "vTagMap \<Rightarrow> bool" where
  "hasAfterlifeNamespace tgs \<longleftrightarrow>
     vTagFirst tgs ''App-Name'' = Some (JStr ''ar//afterlife'')
     \<and> vTagFirst tgs ''App-Tag'' = Some (JStr ''afterlife'')
     \<and> vTagFirst tgs ''Schema-Version'' = Some (JStr ''1'')"

text \<open>The body of the \<open>try\<close> block of \<open>postGraphql\<close>, and its loop over \<open>GRAPHQL_ENDPOINTS\<close>.\<close>

definition postGraphqlTry :: "network \<Rightarrow> string \<Rightarrow> json \<Rightarrow> string \<Rightarrow> js_error + json" where
  "postGraphqlTry net query variables endpoint =
     (case net endpoint (POST query variables) of
        Rejected msg \<Rightarrow> Inl (FetchRejected msg)
      | Responded status body \<Rightarrow>
          if \<not> response_ok status then Inl (HttpStatus endpoint status)
          else
            (case body of
               None \<Rightarrow> Inl BodyNotJson
             | Some json \<Rightarrow>
                 if json = JNull then Inl TypeError
                 else
                   (case thrownByErrors (getField json ''errors'') of
                      Some e \<Rightarrow> Inl e
                    | None \<Rightarrow>
                        if \<not> truthy (getField json ''data'') then Inl (MissingData endpoint)
                        else Inr (the (getField json ''data'')))))"

fun postGraphql_loop ::
  "network \<Rightarrow> string \<Rightarrow> json \<Rightarrow> string list \<Rightarrow> js_error option \<Rightarrow> js_error + json" where
  "postGraphql_loop net query variables [] lastErr =
     Inl (case lastErr of Some e \<Rightarrow> e | None \<Rightarrow> Failed ''GraphQL failed'')"
| "postGraphql_loop net query variables (endpoint # rest) lastErr =
     (case postGraphqlTry net query variables endpoint of
        Inr d \<Rightarrow> Inr d
      | Inl err \<Rightarrow> postGraphql_loop net query variables rest (Some err))"

definition postGraphql :: "network \<Rightarrow> string \<Rightarrow> json \<Rightarrow> js_error + json" where
  "postGraphql net query variables = postGraphql_loop net query variables GRAPHQL_ENDPOINTS None"

text \<open>The body of the \<open>try\<close> block of \<open>fetchJsonByTxId\<close>, and its loop over \<open>GATEWAYS\<close>.\<close>

definition fetchJsonByTxIdTry :: "network \<Rightarrow> json \<Rightarrow> string \<Rightarrow> js_error + json" where
  "fetchJsonByTxIdTry net txId gw =
     (let url = gw @ ''/'' @ jsToString txId
      in case net url GET of
           Rejected msg \<Rightarrow> Inl (FetchRejected msg)
         | Responded status body \<Rightarrow>
             if \<not> response_ok status then Inl (HttpStatus url status)
             else (case body of None \<Rightarrow> Inl BodyNotJson | Some json \<Rightarrow> Inr json))"

fun fetchJsonByTxId_loop ::
  "network \<Rightarrow> json \<Rightarrow> string list \<Rightarrow> js_error option \<Rightarrow> js_error + json" where
  "fetchJsonByTxId_loop net txId [] lastErr =
     Inl (case lastErr of Some e \<Rightarrow> e
          | None \<Rightarrow> Failed (''Failed to fetch tx '' @ jsToString txId))"
| "fetchJsonByTxId_loop net txId (gw # rest) lastErr =
     (case fetchJsonByTxIdTry net txId gw of
        Inr json \<Rightarrow> Inr json
      | Inl err \<Rightarrow> fetchJsonByTxId_loop net txId rest (Some err))"

definition fetchJsonByTxId :: "network \<Rightarrow> json \<Rightarrow> js_error + json" where
  "fetchJsonByTxId net txId = fetchJsonByTxId_loop net txId GATEWAYS None"

text \<open>
  The queries are opaque to the model (the network receives them as they are); their text
  is written here on one line.
\<close>

definition TX_META_QUERY :: string where
  "TX_META_QUERY = ''query TxMeta($ids: [ID!]!) { transactions(ids: $ids) { edges { node { id owner { address } block { height timestamp } tags { name value } } } } }''"

definition LATEST_HEAD_QUERY :: string where
  "LATEST_HEAD_QUERY = ''query LatestHeadForSelf($tags: [TagFilter!]) { transactions(tags: $tags, first: 1, sort: HEIGHT_DESC) { edges { node { id tags { name value } } } } }''"

text \<open>
  \<open>getTxMeta\<close>: \<open>data.transactions.edges.map((e) => e.node)\<close> throws a \<open>TypeError\<close> when
  \<open>transactions\<close> is missing or \<open>null\<close>, when \<open>edges\<close> is not an array, and when an edge is
  \<open>null\<close>. This happens outside the \<open>try\<close> block of \<open>postGraphql\<close>.
\<close>

definition getTxMeta :: "network \<Rightarrow> json list \<Rightarrow> js_error + json option list" where
  "getTxMeta net txIds =
     (case postGraphql net TX_META_QUERY (JObj [(''ids'', JArr txIds)]) of
        Inl e \<Rightarrow> Inl e
      | Inr data \<Rightarrow>
          (case getField data ''transactions'' of
             None \<Rightarrow> Inl TypeError
           | Some tr \<Rightarrow>
               if tr = JNull then Inl TypeError
               else
                 (case asArray (getField tr ''edges'') of
                    None \<Rightarrow> Inl TypeError
                  | Some es \<Rightarrow>
                      if JNull \<in> set es then Inl TypeError
                      else Inr (map (\<lambda>e. getField e ''node'') es))))"

text \<open>\<open>v?.[0]\<close> for a value that is not \<open>null\<close> or \<open>undefined\<close>.\<close>

fun index0 :: "json \<Rightarrow> json option" where
  "index0 (JArr xs) = (case xs of [] \<Rightarrow> None | x # _ \<Rightarrow> Some x)"
| "index0 (JStr s) = (case s of [] \<Rightarrow> None | c # _ \<Rightarrow> Some (JStr [c]))"
| "index0 (JObj kvs) = map_of kvs ''0''"
| "index0 _ = None"

text \<open>\<open>v?.key\<close> and \<open>v?.[0]\<close> for a value that may be \<open>undefined\<close>.\<close>

definition optField :: "json option \<Rightarrow> string \<Rightarrow> json option" where
  "optField v key = (case v of None \<Rightarrow> None | Some j \<Rightarrow> getField j key)"

definition optIndex0 :: "json option \<Rightarrow> json option" where
  "optIndex0 v = (case v of None \<Rightarrow> None | Some j \<Rightarrow> index0 j)"

text \<open>\<open>getLatestHead\<close>: \<open>data?.transactions?.edges?.[0]?.node || null\<close>.\<close>

definition getLatestHead :: "network \<Rightarrow> string \<Rightarrow> js_error + json" where
  "getLatestHead net selfId =
     (let tgs = JArr
            [JObj [(''name'', JStr ''App-Name''), (''values'', JArr [JStr ''ar//afterlife''])],
             JObj [(''name'', JStr ''App-Tag''), (''values'', JArr [JStr ''afterlife''])],
             JObj [(''name'', JStr ''Schema-Version''), (''values'', JArr [JStr ''1''])],
             JObj [(''name'', JStr ''Entity''), (''values'', JArr [JStr ''SelfHead''])],
             JObj [(''name'', JStr ''Self-Id''), (''values'', JArr [JStr selfId])]]
      in case postGraphql net LATEST_HEAD_QUERY (JObj [(''tags'', tgs)]) of
           Inl e \<Rightarrow> Inl e
         | Inr data \<Rightarrow>
             (let nd = optField (optIndex0 (optField (getField data ''transactions'') ''edges'')) ''node''
              in Inr (if truthy nd then the nd else JNull)))"

text \<open>
  The report of \<open>verifyTx\<close>. The early return for a transaction that is not found has
  \<open>ok\<close>, \<open>errors\<close> and \<open>warnings\<close> only; the other fields are \<open>None\<close> there. \<open>tr_tags\<close> is the
  tag map itself (the script prints it with \<open>Object.fromEntries\<close>).
\<close>

datatype verify_warning = IdeaSchemaWarning | IdeaIdMissingWarning | UnknownEntity json

record tx_report =
  tr_ok :: bool
  tr_tx_id :: "json option"
  tr_entity :: "json option"
  tr_tags :: "vTagMap option"
  tr_errors :: "verify_error list"
  tr_warnings :: "verify_warning list"

text \<open>
  \<open>verifyTx\<close>. Its three awaits are in the order of the source: the metadata query, then
  (after the tag map is built) the payload fetch. What any of them throws, \<open>verifyTx\<close>
  throws: the function has no \<open>try\<close>.
\<close>

definition verifyTx :: "network \<Rightarrow> json \<Rightarrow> js_error + tx_report" where
  "verifyTx net txId =
     (case getTxMeta net [txId] of
        Inl e \<Rightarrow> Inl e
      | Inr metas \<Rightarrow>
          (let meta = (case metas of [] \<Rightarrow> None | m # _ \<Rightarrow> m)
           in if \<not> truthy meta
              then Inr \<lparr>tr_ok = False, tr_tx_id = None, tr_entity = None, tr_tags = None,
                        tr_errors = [TxNotFound txId], tr_warnings = []\<rparr>
              else
                (case vTagsToMap (getField (the meta) ''tags'') of
                   Inl e \<Rightarrow> Inl e
                 | Inr tgs \<Rightarrow>
                     (case fetchJsonByTxId net txId of
                        Inl e \<Rightarrow> Inl e
                      | Inr payload \<Rightarrow>
                          (let entity = vTagFirst tgs ''Entity'';
                               errors =
                                 (if \<not> hasAfterlifeNamespace tgs then [MissingNamespaceTags] else [])
                                 @ (if \<not> truthy entity then [MissingEntityTag] else [])
                                 @ (if entity = Some (JStr ''SelfHead'') then validateHeadPayload payload
                                    else if entity = Some (JStr ''SelfSnapshot'')
                                    then validateSnapshotPayload payload
                                    else []);
                               warnings =
                                 (if entity = Some (JStr ''SelfHead'') then []
                                  else if entity = Some (JStr ''SelfSnapshot'') then []
                                  else if entity = Some (JStr ''Idea'')
                                  then (if getField payload ''schema'' \<noteq> Some (JStr ''afterlife.idea@1'')
                                        then [IdeaSchemaWarning] else [])
                                       @ (if \<not> isString (getField payload ''idea_id'')
                                          then [IdeaIdMissingWarning] else [])
                                  else [UnknownEntity txId])
                           in Inr \<lparr>tr_ok = (length errors = 0), tr_tx_id = Some txId,
                                    tr_entity = Some (if truthy entity then the entity else JNull),
                                    tr_tags = Some tgs,
                                    tr_errors = errors, tr_warnings = warnings\<rparr>)))))"

text \<open>The report of \<open>verifySelf\<close>, and its messages with their prefixes.\<close>

datatype self_error =
    NoDiscoverableHead
  | HeadError verify_error
  | HeadMissingSnapshotTx
  | SnapshotError verify_error
  | IdeaError json verify_error

datatype self_warning =
    HeadWarning verify_warning
  | SnapshotWarning verify_warning
  | IdeaWarning json verify_warning

record idea_report =
  ir_idea_id :: json
  ir_tx_id :: json
  ir_ok :: bool
  ir_errors :: "verify_error list"
  ir_warnings :: "verify_warning list"

record self_report =
  sr_ok :: bool
  sr_self_id :: string
  sr_discoverable :: "bool option"
  sr_head_tx :: "json option"
  sr_snapshot_tx :: "json option"
  sr_idea_count :: "nat option"
  sr_idea_reports :: "idea_report list option"
  sr_errors :: "self_error list"
  sr_warnings :: "self_warning list"

text \<open>
  The loop over \<open>ideaRefs\<close>, with \<open>errors\<close>, \<open>warnings\<close> and \<open>ideaReports\<close> as state. The call
  of \<open>verifyTx\<close> is not inside a \<open>try\<close>: when it throws, the loop and \<open>verifySelf\<close> end with
  that error.
\<close>

fun verifyIdeas ::
  "network \<Rightarrow> json list \<Rightarrow> self_error list \<Rightarrow> self_warning list \<Rightarrow> idea_report list
     \<Rightarrow> js_error + (self_error list \<times> self_warning list \<times> idea_report list)" where
  "verifyIdeas net [] errors warnings ideaReports = Inr (errors, warnings, ideaReports)"
| "verifyIdeas net (ref # rest) errors warnings ideaReports =
     (if \<not> truthy (getField ref ''tx_id'') then verifyIdeas net rest errors warnings ideaReports
      else
        (case verifyTx net (the (getField ref ''tx_id'')) of
           Inl e \<Rightarrow> Inl e
         | Inr report \<Rightarrow>
             (let label = (if truthy (getField ref ''idea_id'') then the (getField ref ''idea_id'')
                           else the (getField ref ''tx_id''))
              in verifyIdeas net rest
                   (errors @ (if \<not> tr_ok report then map (IdeaError label) (tr_errors report) else []))
                   (warnings @ map (IdeaWarning label) (tr_warnings report))
                   (ideaReports @
                      [\<lparr>ir_idea_id = (if truthy (getField ref ''idea_id'')
                                       then the (getField ref ''idea_id'') else JNull),
                        ir_tx_id = the (getField ref ''tx_id''),
                        ir_ok = tr_ok report,
                        ir_errors = tr_errors report,
                        ir_warnings = tr_warnings report\<rparr>]))))"

definition verifySelf :: "network \<Rightarrow> string \<Rightarrow> js_error + self_report" where
  "verifySelf net selfId =
     (case getLatestHead net selfId of
        Inl e \<Rightarrow> Inl e
      | Inr latest \<Rightarrow>
          if \<not> truthy (getField latest ''id'')
          then Inr \<lparr>sr_ok = False, sr_self_id = selfId, sr_discoverable = None, sr_head_tx = None,
                    sr_snapshot_tx = None, sr_idea_count = None, sr_idea_reports = None,
                    sr_errors = [NoDiscoverableHead], sr_warnings = []\<rparr>
          else
            (let latest_id = the (getField latest ''id'') in
             case verifyTx net latest_id of
               Inl e \<Rightarrow> Inl e
             | Inr head \<Rightarrow>
                 (let errors1 = (if \<not> tr_ok head then map HeadError (tr_errors head) else []);
                      warnings1 = map HeadWarning (tr_warnings head)
                  in case fetchJsonByTxId net latest_id of
                       Inl e \<Rightarrow> Inl e
                     | Inr headPayload \<Rightarrow>
                         if \<not> isString (getField headPayload ''snapshot_tx'')
                         then Inr \<lparr>sr_ok = False, sr_self_id = selfId, sr_discoverable = None,
                                   sr_head_tx = Some latest_id, sr_snapshot_tx = None,
                                   sr_idea_count = None, sr_idea_reports = None,
                                   sr_errors = errors1 @ [HeadMissingSnapshotTx],
                                   sr_warnings = warnings1\<rparr>
                         else
                           (let snapshotTx = the (getField headPayload ''snapshot_tx'') in
                            case verifyTx net snapshotTx of
                              Inl e \<Rightarrow> Inl e
                            | Inr snapshot \<Rightarrow>
                                (let errors2 = errors1 @ (if \<not> tr_ok snapshot
                                                 then map SnapshotError (tr_errors snapshot) else []);
                                     warnings2 = warnings1 @ map SnapshotWarning (tr_warnings snapshot)
                                 in case fetchJsonByTxId net snapshotTx of
                                      Inl e \<Rightarrow> Inl e
                                    | Inr snapshotPayload \<Rightarrow>
                                        (let ideaRefs =
                                               (case asArray (getField snapshotPayload ''ideas'') of
                                                  Some refs \<Rightarrow> refs | None \<Rightarrow> [])
                                         in case verifyIdeas net ideaRefs errors2 warnings2 [] of
                                              Inl e \<Rightarrow> Inl e
                                            | Inr (errors, warnings, ideaReports) \<Rightarrow>
                                                Inr \<lparr>sr_ok = (length errors = 0),
                                                     sr_self_id = selfId,
                                                     sr_discoverable = Some (truthy (getField latest ''id'')),
                                                     sr_head_tx = Some latest_id,
                                                     sr_snapshot_tx = Some snapshotTx,
                                                     sr_idea_count = Some (length ideaReports),
                                                     sr_idea_reports = Some ideaReports,
                                                     sr_errors = errors,
                                                     sr_warnings = warnings\<rparr>))))))"

section \<open>Example inputs\<close>

text \<open>The two edges of the test in \<open>arweave.test.ts\<close>, a third that ties with the first, and one whose
  Self-Id tag has the empty string as its value.\<close>

definition edge_tx1 :: ArweaveTxEdge where
  "edge_tx1 = \<lparr>cursor = ''c1'', node = \<lparr>node_id = ''tx1'', owner_address = ''o1'',
       block = Some \<lparr>height = 10, timestamp = 1\<rparr>,
       tags = [\<lparr>tag_name = ''Self-Id'', tag_value = ''S''\<rparr>]\<rparr>\<rparr>"

definition edge_tx2 :: ArweaveTxEdge where
  "edge_tx2 = \<lparr>cursor = ''c2'', node = \<lparr>node_id = ''tx2'', owner_address = ''o1'',
       block = Some \<lparr>height = 11, timestamp = 2\<rparr>,
       tags = [\<lparr>tag_name = ''Self-Id'', tag_value = ''S''\<rparr>]\<rparr>\<rparr>"

definition edge_tx3 :: ArweaveTxEdge where
  "edge_tx3 = \<lparr>cursor = ''c3'', node = \<lparr>node_id = ''tx3'', owner_address = ''o2'',
       block = Some \<lparr>height = 10, timestamp = 3\<rparr>,
       tags = [\<lparr>tag_name = ''Self-Id'', tag_value = ''S''\<rparr>]\<rparr>\<rparr>"

definition edge_blank :: ArweaveTxEdge where
  "edge_blank = \<lparr>cursor = ''c4'', node = \<lparr>node_id = ''tx4'', owner_address = ''o1'',
       block = Some \<lparr>height = 12, timestamp = 4\<rparr>,
       tags = [\<lparr>tag_name = ''Self-Id'', tag_value = ''''\<rparr>]\<rparr>\<rparr>"

text \<open>A second edge with the empty Self-Id value, of the same height as the first, and an
  edge of identity \<open>T\<close> that is in no block yet.\<close>

definition edge_blank2 :: ArweaveTxEdge where
  "edge_blank2 = \<lparr>cursor = ''c5'', node = \<lparr>node_id = ''tx5'', owner_address = ''o2'',
       block = Some \<lparr>height = 12, timestamp = 5\<rparr>,
       tags = [\<lparr>tag_name = ''Self-Id'', tag_value = ''''\<rparr>]\<rparr>\<rparr>"

definition edge_other :: ArweaveTxEdge where
  "edge_other = \<lparr>cursor = ''c6'', node = \<lparr>node_id = ''tx6'', owner_address = ''o3'',
       block = None,
       tags = [\<lparr>tag_name = ''Self-Id'', tag_value = ''T''\<rparr>]\<rparr>\<rparr>"

text \<open>
  Snapshot documents: one that is valid (the example of the README), one with two ideas of
  the same \<open>idea_id\<close>, and one whose edge points at an idea id that is not declared.
\<close>

definition idea_entry :: "string \<Rightarrow> string \<Rightarrow> json" where
  "idea_entry i t = JObj [(''idea_id'', JStr i), (''tx_id'', JStr t)]"

definition edge_entry :: "string \<Rightarrow> string \<Rightarrow> string \<Rightarrow> json" where
  "edge_entry f t ty = JObj [(''from_idea_id'', JStr f), (''to_idea_id'', JStr t), (''type'', JStr ty)]"

definition snapshot_ok :: json where
  "snapshot_ok = JObj
     [(''schema'', JStr ''afterlife.snapshot@1''),
      (''self_id'', JStr ''self-abc''),
      (''ideas'', JArr [idea_entry ''mission'' ''t1'', idea_entry ''vision'' ''t2'']),
      (''edges'', JArr [edge_entry ''mission'' ''vision'' ''supports''])]"

definition snapshot_dup :: json where
  "snapshot_dup = JObj
     [(''schema'', JStr ''afterlife.snapshot@1''),
      (''self_id'', JStr ''self-abc''),
      (''ideas'', JArr [idea_entry ''mission'' ''t1'', idea_entry ''mission'' ''t2''])]"

definition snapshot_dangling :: json where
  "snapshot_dangling = JObj
     [(''schema'', JStr ''afterlife.snapshot@1''),
      (''self_id'', JStr ''self-abc''),
      (''ideas'', JArr [idea_entry ''mission'' ''t1'']),
      (''edges'', JArr [edge_entry ''mission'' ''vision'' ''supports''])]"

text \<open>
  Two states of \<open>localStorage\<close>: an override with spaces around it, and an override of
  spaces only.
\<close>

definition demo_storage :: storage where
  "demo_storage = Some (\<lambda>k. if k = ''afterlifeGatewayUrl'' then Some '' https://gw.example '' else None)"

definition blank_storage :: storage where
  "blank_storage = Some (\<lambda>k. if k = ''afterlifeGatewayUrl'' then Some ''   '' else None)"

text \<open>
  Networks: the mock of the test in \<open>arweave.test.ts\<close> (the first gateway is down, the
  second answers); one whose first gateway answers 200 with a body that is not JSON; one
  where both query endpoints fail, the second with a declared query error; and one where
  the second query endpoint answers with a result of zero records.
\<close>

definition test_net :: network where
  "test_net url req =
     (if take 12 url = ''https://gw1/'' then Rejected ''network down''
      else if take 12 url = ''https://gw2/'' then Responded 200 (Some (JObj [(''ok'', JBool True)]))
      else Rejected (''unexpected url: '' @ url))"

definition garbled_net :: network where
  "garbled_net url req =
     (if take 12 url = ''https://gw1/'' then Responded 200 None
      else if take 12 url = ''https://gw2/'' then Responded 200 (Some (JObj [(''ok'', JBool True)]))
      else Rejected (''unexpected url: '' @ url))"

definition failing_graphql_net :: network where
  "failing_graphql_net url req =
     (if url = ''https://arweave.net/graphql'' then Responded 502 None
      else Responded 200 (Some (JObj [(''errors'', JArr [JObj [(''message'', JStr ''timeout'')]])])))"

definition empty_result :: json where
  "empty_result = JObj [(''transactions'', JObj [(''edges'', JArr [])])]"

definition second_graphql_net :: network where
  "second_graphql_net url req =
     (if url = ''https://arweave.net/graphql'' then Responded 502 None
      else Responded 200 (Some (JObj [(''data'', empty_result)])))"

text \<open>The gateways of the verify script, the first of which answers 200 with a body that is
  not JSON.\<close>

definition garbled_first_gateway :: network where
  "garbled_first_gateway url req =
     (if url = ''https://arweave.net/TX'' then Responded 200 None
      else if url = ''https://ar-io.dev/TX'' then Responded 200 (Some (JObj [(''ok'', JBool True)]))
      else Responded 404 None)"

text \<open>A network whose first gateway answers 200 with a body that is not JSON and whose
  second gateway answers 503.\<close>

definition garbled_then_down_net :: network where
  "garbled_then_down_net url req =
     (if take 12 url = ''https://gw1/'' then Responded 200 None
      else Responded 503 None)"

text \<open>
  A chain on the ledger: the head \<open>HEAD1\<close> of \<open>self-abc\<close> points at the snapshot \<open>SNAP1\<close>,
  which lists the ideas \<open>IDEA1\<close> and \<open>IDEA2\<close>. \<open>chain_index\<close> is what the query service
  knows of each transaction, \<open>chain_payloads\<close> what the gateways store.
\<close>

definition afterlife_node :: "string \<Rightarrow> string \<Rightarrow> json" where
  "afterlife_node i entity = JObj
     [(''id'', JStr i),
      (''tags'', JArr
         [JObj [(''name'', JStr ''App-Name''), (''value'', JStr ''ar//afterlife'')],
          JObj [(''name'', JStr ''App-Tag''), (''value'', JStr ''afterlife'')],
          JObj [(''name'', JStr ''Schema-Version''), (''value'', JStr ''1'')],
          JObj [(''name'', JStr ''Entity''), (''value'', JStr entity)],
          JObj [(''name'', JStr ''Self-Id''), (''value'', JStr ''self-abc'')]])]"

definition edges_response :: "json list \<Rightarrow> fetch_result" where
  "edges_response nodes = Responded 200 (Some (JObj
     [(''data'', JObj [(''transactions'',
         JObj [(''edges'', JArr (map (\<lambda>n. JObj [(''node'', n)]) nodes))])])]))"

definition chain_index :: "(string \<times> json) list" where
  "chain_index =
     [(''HEAD1'', afterlife_node ''HEAD1'' ''SelfHead''),
      (''SNAP1'', afterlife_node ''SNAP1'' ''SelfSnapshot''),
      (''IDEA1'', afterlife_node ''IDEA1'' ''Idea''),
      (''IDEA2'', afterlife_node ''IDEA2'' ''Idea'')]"

definition chain_payloads :: "(string \<times> json) list" where
  "chain_payloads =
     [(''HEAD1'', JObj [(''schema'', JStr ''afterlife.selfhead@1''), (''self_id'', JStr ''self-abc''),
                       (''name'', JStr ''Abc''), (''snapshot_tx'', JStr ''SNAP1'')]),
      (''SNAP1'', JObj [(''schema'', JStr ''afterlife.snapshot@1''), (''self_id'', JStr ''self-abc''),
                       (''ideas'', JArr [idea_entry ''mission'' ''IDEA1'', idea_entry ''vision'' ''IDEA2''])]),
      (''IDEA1'', JObj [(''schema'', JStr ''afterlife.idea@1''), (''idea_id'', JStr ''mission'')]),
      (''IDEA2'', JObj [(''schema'', JStr ''afterlife.idea@1''), (''idea_id'', JStr ''vision'')])]"

text \<open>
  A ledger that holds the chain. The query service answers at both endpoints, with the
  latest head for a tag query and with the indexed node for an id query; a gateway answers
  with the stored payload, and 404 for what it does not store.
\<close>

definition chain_net :: "(string \<times> json) list \<Rightarrow> (string \<times> json) list \<Rightarrow> network" where
  "chain_net index payloads url req =
     (case req of
        POST q variables \<Rightarrow>
          (case getField variables ''ids'' of
             Some (JArr [JStr t]) \<Rightarrow>
               edges_response (case map_of index t of None \<Rightarrow> [] | Some n \<Rightarrow> [n])
           | _ \<Rightarrow> edges_response [afterlife_node ''HEAD1'' ''SelfHead''])
      | GET \<Rightarrow>
          (case map_of (concat (map (\<lambda>(t, p). [(''https://arweave.net/'' @ t, p),
                                                   (''https://ar-io.dev/'' @ t, p)]) payloads)) url of
             Some p \<Rightarrow> Responded 200 (Some p)
           | None \<Rightarrow> Responded 404 None))"

text \<open>
  The same ledger where no gateway stores the payload of \<open>IDEA1\<close>, and where the query
  service has not indexed \<open>IDEA1\<close>.
\<close>

definition unfetchable_idea_net :: network where
  "unfetchable_idea_net = chain_net chain_index (filter (\<lambda>(t, p). t \<noteq> ''IDEA1'') chain_payloads)"

definition unindexed_idea_net :: network where
  "unindexed_idea_net = chain_net (filter (\<lambda>(t, n). t \<noteq> ''IDEA1'') chain_index) chain_payloads"

section \<open>Properties of the tag index\<close>

lemma tagsToMap_step_keys:
  "fst ` set (tagsToMap_step m t) = insert (tag_name t) (fst ` set m)"
  by (simp add: tagsToMap_step_def Let_def dom_update)

lemma tagsToMap_step_distinct:
  "distinct (map fst m) \<Longrightarrow> distinct (map fst (tagsToMap_step m t))"
  by (simp add: tagsToMap_step_def Let_def distinct_update)

lemma tagsToMap_loop_keys:
  "fst ` set (foldl tagsToMap_step m ts) = fst ` set m \<union> tag_name ` set ts"
  by (induction ts arbitrary: m) (auto simp: tagsToMap_step_keys)

lemma tagsToMap_loop_distinct:
  "distinct (map fst m) \<Longrightarrow> distinct (map fst (foldl tagsToMap_step m ts))"
  by (induction ts arbitrary: m) (auto simp: tagsToMap_step_distinct)

lemma tagsToMap_loop_lookup:
  "map_of (foldl tagsToMap_step m ts) n =
     (if map_of m n = None \<and> valuesOf n ts = [] then None
      else Some ((case map_of m n of None \<Rightarrow> [] | Some vs \<Rightarrow> vs) @ valuesOf n ts))"
proof (induction ts arbitrary: m)
  case Nil
  then show ?case by (auto simp: valuesOf_def)
next
  case (Cons t ts)
  show ?case
    by (simp add: Cons.IH)
       (auto simp: tagsToMap_step_def Let_def update_conv' valuesOf_def split: option.splits)
qed

lemma tagsToMap_lookup:
  "map_of (tagsToMap (Some ts)) n = (if valuesOf n ts = [] then None else Some (valuesOf n ts))"
  by (simp add: tagsToMap_loop_lookup)

lemma tagFirst_tagsToMap:
  "tagFirst (tagsToMap (Some ts)) n = map_option tag_value (find (\<lambda>t. tag_name t = n) ts)"
proof -
  have "(case valuesOf n ts of [] \<Rightarrow> None | v # _ \<Rightarrow> Some v)
          = map_option tag_value (find (\<lambda>t. tag_name t = n) ts)"
    by (induction ts) (auto simp: valuesOf_def)
  then show ?thesis
    by (auto simp: tagFirst_def tagsToMap_lookup simp del: tagsToMap.simps split: list.splits)
qed

lemma tagsToMap_size:
  "length (tagsToMap (Some ts)) = card (tag_name ` set ts)"
proof -
  have d: "distinct (map fst (tagsToMap (Some ts)))"
    by (simp add: tagsToMap_loop_distinct)
  have "length (tagsToMap (Some ts)) = length (map fst (tagsToMap (Some ts)))"
    by simp
  also have "\<dots> = card (set (map fst (tagsToMap (Some ts))))"
    using d by (simp only: distinct_card)
  also have "\<dots> = card (tag_name ` set ts)"
    by (simp add: tagsToMap_loop_keys)
  finally show ?thesis .
qed

text \<open>
  Claim C9. Building the index from the two tags \<open>(n, v1), (n, v2)\<close> and asking for the
  first value of \<open>n\<close> gives \<open>v1\<close>, the value inserted first; in general the first value
  of a name is the value of the earliest tag of the list with that name. The size of
  the index (the \<open>size\<close> of the \<open>Map\<close>) is the number of different tag names of the
  input, not the number of tags.
\<close>

theorem tag_index_round_trip:
  "tagFirst (tagsToMap (Some [\<lparr>tag_name = n, tag_value = v1\<rparr>, \<lparr>tag_name = n, tag_value = v2\<rparr>])) n
     = Some v1
   \<and> tagFirst (tagsToMap (Some ts)) n = map_option tag_value (find (\<lambda>t. tag_name t = n) ts)
   \<and> length (tagsToMap (Some ts)) = card (tag_name ` set ts)
   \<and> length (tagsToMap (Some [\<lparr>tag_name = n, tag_value = v1\<rparr>, \<lparr>tag_name = n, tag_value = v2\<rparr>])) = 1"
  by (simp add: tagFirst_tagsToMap tagsToMap_size del: tagsToMap.simps)

section \<open>Properties of the resolver\<close>

lemma step_distinct:
  "distinct (map fst m) \<Longrightarrow> distinct (map fst (groupLatest_step m e))"
  by (simp add: groupLatest_step_def Let_def distinct_update)

lemma loop_distinct:
  "distinct (map fst m) \<Longrightarrow> distinct (map fst (foldl groupLatest_step m es))"
  by (induction es arbitrary: m) (auto simp: step_distinct)

lemma step_lookup:
  "map_of (groupLatest_step m e) k =
     (if selfIdOf (node e) = k \<and> k \<noteq> '''' \<and>
         (case map_of m k of None \<Rightarrow> True | Some x \<Rightarrow> heightOf x < heightOf (node e))
      then Some (node e) else map_of m k)"
  by (auto simp: groupLatest_step_def Let_def update_conv' split: option.splits)

lemma firstWith_snoc:
  "firstWith k h (ns @ [x]) =
     (case firstWith k h ns of Some y \<Rightarrow> Some y
      | None \<Rightarrow> if selfIdOf x = k \<and> heightOf x = h then Some x else None)"
  by (induction ns) (auto simp: firstWith_def)

lemma firstWith_None:
  "firstWith k h ns = None \<longleftrightarrow> (\<forall>m\<in>set ns. selfIdOf m = k \<longrightarrow> heightOf m \<noteq> h)"
  by (auto simp: firstWith_def find_None_iff)

lemma winners_ok_step:
  assumes IH: "winners_ok es m"
  shows "winners_ok (es @ [e]) (groupLatest_step m e)"
  unfolding winners_ok_def
proof (rule conjI; (intro allI impI ballI)?)
  fix k n
  assume a: "map_of (groupLatest_step m e) k = Some n"
  let ?new = "selfIdOf (node e) = k \<and> k \<noteq> '''' \<and>
         (case map_of m k of None \<Rightarrow> True | Some x \<Rightarrow> heightOf x < heightOf (node e))"
  have old: "map_of m k = Some x \<Longrightarrow>
        k \<noteq> '''' \<and> selfIdOf x = k \<and> x \<in> node ` set es \<and>
        (\<forall>e\<in>set es. selfIdOf (node e) = k \<longrightarrow> heightOf (node e) \<le> heightOf x) \<and>
        firstWith k (heightOf x) (map node es) = Some x" for x
    using IH unfolding winners_ok_def by blast
  have none: "map_of m k = None \<Longrightarrow> k \<noteq> '''' \<Longrightarrow> \<forall>e\<in>set es. selfIdOf (node e) \<noteq> k"
    using IH unfolding winners_ok_def by blast
  show "k \<noteq> '''' \<and> selfIdOf n = k \<and> n \<in> node ` set (es @ [e]) \<and>
        (\<forall>e'\<in>set (es @ [e]). selfIdOf (node e') = k \<longrightarrow> heightOf (node e') \<le> heightOf n) \<and>
        firstWith k (heightOf n) (map node (es @ [e])) = Some n"
  proof (cases ?new)
    case True
    then have n: "n = node e" using a by (simp add: step_lookup)
    have below: "\<forall>e'\<in>set es. selfIdOf (node e') = k \<longrightarrow> heightOf (node e') < heightOf (node e)"
    proof (cases "map_of m k")
      case None
      then show ?thesis using none True by blast
    next
      case (Some x)
      then have "heightOf x < heightOf (node e)" using True by simp
      then show ?thesis using old [OF Some] by fastforce
    qed
    then have "firstWith k (heightOf (node e)) (map node es) = None"
      by (fastforce simp: firstWith_None)
    then show ?thesis using True n below
      by (fastforce simp: firstWith_snoc)
  next
    case False
    then have m: "map_of m k = Some n" using a by (auto simp: step_lookup split: if_splits)
    note o = old [OF m]
    have "selfIdOf (node e) = k \<Longrightarrow> heightOf (node e) \<le> heightOf n"
      using False m o by auto
    then show ?thesis using o by (auto simp: firstWith_snoc)
  qed
next
  fix e'
  assume "e' \<in> set (es @ [e])" "selfIdOf (node e') \<noteq> ''''"
  then show "map_of (groupLatest_step m e) (selfIdOf (node e')) \<noteq> None"
    using IH by (auto simp: step_lookup winners_ok_def split: option.splits)
qed

lemma winners_ok_loop: "winners_ok es (foldl groupLatest_step [] es)"
proof (induction es rule: rev_induct)
  case Nil
  then show ?case by (simp add: winners_ok_def)
next
  case (snoc e es)
  then show ?case by (simp add: winners_ok_step)
qed

lemma winners_entries:
  assumes "(k, n) \<in> set (foldl groupLatest_step [] es)"
  shows "k \<noteq> '''' \<and> selfIdOf n = k \<and> n \<in> node ` set es \<and>
        (\<forall>e\<in>set es. selfIdOf (node e) = k \<longrightarrow> heightOf (node e) \<le> heightOf n) \<and>
        firstWith k (heightOf n) (map node es) = Some n"
proof -
  have "distinct (map fst (foldl groupLatest_step [] es))"
    by (simp add: loop_distinct)
  then have "map_of (foldl groupLatest_step [] es) k = Some n"
    using assms by simp
  then show ?thesis
    using winners_ok_loop [of es] unfolding winners_ok_def by blast
qed

lemma winners_keys:
  "fst ` set (foldl groupLatest_step [] es) = (selfIdOf \<circ> node) ` set es - {''''}"
proof -
  let ?m = "foldl groupLatest_step [] es"
  have "k \<in> fst ` set ?m \<longleftrightarrow> k \<in> (selfIdOf \<circ> node) ` set es - {''''}" for k
  proof
    assume "k \<in> fst ` set ?m"
    then obtain n where "(k, n) \<in> set ?m" by auto
    from winners_entries [OF this] show "k \<in> (selfIdOf \<circ> node) ` set es - {''''}"
      by auto
  next
    assume "k \<in> (selfIdOf \<circ> node) ` set es - {''''}"
    then obtain e where "e \<in> set es" "selfIdOf (node e) = k" "k \<noteq> ''''" by auto
    then have "map_of ?m k \<noteq> None"
      using winners_ok_loop [of es] unfolding winners_ok_def by blast
    then show "k \<in> fst ` set ?m"
      by (simp add: map_of_eq_None_iff)
  qed
  then show ?thesis by blast
qed

lemma winners_ids: "map selfIdOf (map snd (foldl groupLatest_step [] es)) = map fst (foldl groupLatest_step [] es)"
proof -
  have "\<forall>p\<in>set (foldl groupLatest_step [] es). selfIdOf (snd p) = fst p"
    using winners_entries [of _ _ es] by auto
  then show ?thesis by simp
qed

lemma distinct_map_sort_key:
  "distinct (map g (sort_key f xs)) = distinct (map g xs)"
  by (simp add: distinct_map)

text \<open>
  Claim C1, as amended. A record's identity is the first value of its Self-Id tags, and the
  empty string when it has none (\<open>selfIdOf\<close>). The resolver returns exactly one record
  for each non-empty identity of the input: the identities of the output are pairwise
  different and are the non-empty identities of the input. Every returned record is an
  input record whose height (\<open>- 1\<close> for a null block) is the greatest of its identity
  group. Records with no Self-Id tag, and records whose first Self-Id value is the empty
  string, are dropped and nothing is raised (the function is total). The output is sorted
  by descending height.
\<close>

theorem resolver_one_per_identity:
  "distinct (map selfIdOf (groupLatestHeadsBySelfId es))
   \<and> selfIdOf ` set (groupLatestHeadsBySelfId es) = (selfIdOf \<circ> node) ` set es - {''''}
   \<and> set (groupLatestHeadsBySelfId es) \<subseteq> node ` set es
   \<and> (\<forall>n\<in>set (groupLatestHeadsBySelfId es). \<forall>e\<in>set es.
         selfIdOf (node e) = selfIdOf n \<longrightarrow> heightOf (node e) \<le> heightOf n)
   \<and> sorted_wrt (\<lambda>a b. heightOf b \<le> heightOf a) (groupLatestHeadsBySelfId es)"
proof -
  let ?m = "foldl groupLatest_step [] es"
  let ?out = "groupLatestHeadsBySelfId es"
  have out: "set ?out = snd ` set ?m"
    by (simp add: groupLatestHeadsBySelfId_def)
  have 1: "distinct (map selfIdOf ?out)"
    unfolding groupLatestHeadsBySelfId_def
    by (simp only: distinct_map_sort_key winners_ids) (simp add: loop_distinct)
  have "selfIdOf ` set ?out = set (map selfIdOf (map snd ?m))"
    by (simp add: out image_image)
  then have 2: "selfIdOf ` set ?out = (selfIdOf \<circ> node) ` set es - {''''}"
    by (simp only: winners_ids set_map winners_keys)
  have 3: "set ?out \<subseteq> node ` set es"
    using winners_entries [of _ _ es] by (auto simp: out)
  have 4: "\<forall>n\<in>set ?out. \<forall>e\<in>set es.
         selfIdOf (node e) = selfIdOf n \<longrightarrow> heightOf (node e) \<le> heightOf n"
  proof (intro ballI impI)
    fix n e assume "n \<in> set ?out" "e \<in> set es" "selfIdOf (node e) = selfIdOf n"
    then obtain k where "(k, n) \<in> set ?m" by (auto simp: out)
    from winners_entries [OF this] \<open>e \<in> set es\<close> \<open>selfIdOf (node e) = selfIdOf n\<close>
    show "heightOf (node e) \<le> heightOf n" by auto
  qed
  have "sorted (map (\<lambda>n. - heightOf n) ?out)"
    unfolding groupLatestHeadsBySelfId_def by (rule sorted_sort_key)
  then have 5: "sorted_wrt (\<lambda>a b. heightOf b \<le> heightOf a) ?out"
    by (simp add: sorted_map)
  from 1 2 3 4 5 show ?thesis by blast
qed

text \<open>
  The test of \<open>arweave.test.ts\<close>: of \<open>tx1\<close> (height 10) and \<open>tx2\<close> (height 11), both of
  identity \<open>S\<close>, the resolver returns \<open>tx2\<close> alone.
\<close>

theorem resolver_one_per_identity_witness:
  "node edge_tx2 \<in> set (groupLatestHeadsBySelfId [edge_tx1, edge_tx2])
   \<and> edge_tx1 \<in> set [edge_tx1, edge_tx2]
   \<and> selfIdOf (node edge_tx1) = selfIdOf (node edge_tx2)
   \<and> heightOf (node edge_tx1) \<le> heightOf (node edge_tx2)
   \<and> map node_id (groupLatestHeadsBySelfId [edge_tx1, edge_tx2]) = [''tx2'']"
proof -
  have out: "groupLatestHeadsBySelfId [edge_tx1, edge_tx2] = [node edge_tx2]"
    by code_simp
  have h1: "node edge_tx2 \<in> set (groupLatestHeadsBySelfId [edge_tx1, edge_tx2])"
    by (simp add: out)
  have h2: "edge_tx1 \<in> set [edge_tx1, edge_tx2]"
    by simp
  have h3: "selfIdOf (node edge_tx1) = selfIdOf (node edge_tx2)"
    by code_simp
  have "\<forall>n\<in>set (groupLatestHeadsBySelfId [edge_tx1, edge_tx2]). \<forall>e\<in>set [edge_tx1, edge_tx2].
         selfIdOf (node e) = selfIdOf n \<longrightarrow> heightOf (node e) \<le> heightOf n"
    using resolver_one_per_identity [of "[edge_tx1, edge_tx2]"] by blast
  then have "heightOf (node edge_tx1) \<le> heightOf (node edge_tx2)"
    using h1 h2 h3 by blast
  moreover have "map node_id (groupLatestHeadsBySelfId [edge_tx1, edge_tx2]) = [''tx2'']"
    by code_simp
  ultimately show ?thesis using h1 h2 h3 by blast
qed

text \<open>
  The claim as stated (one record for every distinct Self-Id tag value) fails for the tag
  value \<open>""\<close>: the record carries a Self-Id tag, and the output has no record for it.
\<close>

theorem resolver_blank_identity_counterexample:
  "tagFirst (tagsToMap (Some (tags (node edge_blank)))) ''Self-Id'' = Some ''''
   \<and> groupLatestHeadsBySelfId [edge_blank] = []"
  by code_simp

lemma step_keeps_bound:
  assumes "map_of m k = Some x" "h \<le> heightOf x"
  shows "\<exists>y. map_of (groupLatest_step m e) k = Some y \<and> h \<le> heightOf y"
  using assms by (auto simp: step_lookup)

lemma loop_keeps_bound:
  "map_of m k = Some x \<Longrightarrow> h \<le> heightOf x \<Longrightarrow>
     \<exists>y. map_of (foldl groupLatest_step m es) k = Some y \<and> h \<le> heightOf y"
proof (induction es arbitrary: m x)
  case Nil
  then show ?case by simp
next
  case (Cons e es)
  from step_keeps_bound [OF Cons.prems, of e]
  obtain y where "map_of (groupLatest_step m e) k = Some y" "h \<le> heightOf y" by blast
  from Cons.IH [OF this] show ?case by simp
qed

lemma step_after_self:
  "selfIdOf (node a) \<noteq> '''' \<Longrightarrow>
     \<exists>y. map_of (groupLatest_step m a) (selfIdOf (node a)) = Some y \<and> heightOf (node a) \<le> heightOf y"
  by (cases "map_of m (selfIdOf (node a))") (auto simp: step_lookup)

lemma step_ignored:
  "selfIdOf (node b) = '''' \<or> (\<exists>y. map_of m (selfIdOf (node b)) = Some y \<and> heightOf (node b) \<le> heightOf y)
     \<Longrightarrow> groupLatest_step m b = m"
  by (auto simp: groupLatest_step_def Let_def)

lemma later_tie_ignored:
  assumes "selfIdOf (node a) = selfIdOf (node b)" and "heightOf (node a) = heightOf (node b)"
  shows "foldl groupLatest_step m (pre @ a # mid @ b # post)
         = foldl groupLatest_step m (pre @ a # mid @ post)"
proof -
  let ?m1 = "groupLatest_step (foldl groupLatest_step m pre) a"
  let ?m2 = "foldl groupLatest_step ?m1 mid"
  have "groupLatest_step ?m2 b = ?m2"
  proof (cases "selfIdOf (node b) = ''''")
    case True
    then show ?thesis by (simp add: step_ignored)
  next
    case False
    then have "selfIdOf (node a) \<noteq> ''''" using assms by simp
    from step_after_self [OF this, of "foldl groupLatest_step m pre"]
    obtain y where "map_of ?m1 (selfIdOf (node a)) = Some y" "heightOf (node a) \<le> heightOf y"
      by blast
    from loop_keeps_bound [OF this, of mid]
    have "\<exists>y. map_of ?m2 (selfIdOf (node b)) = Some y \<and> heightOf (node b) \<le> heightOf y"
      using assms by simp
    then show ?thesis by (simp add: step_ignored)
  qed
  then show ?thesis by simp
qed

text \<open>
  The records of the output have pairwise distinct identities, so the output holds at most
  one record of a given identity; and the record of identity \<open>s\<close> is the earliest record of
  the input among those of identity \<open>s\<close> and of the greatest height of that group.
\<close>

lemma filter_key_single:
  "distinct (map f xs) \<Longrightarrow> x \<in> set xs \<Longrightarrow> filter (\<lambda>y. f y = f x) xs = [x]"
proof (induction xs)
  case Nil
  then show ?case by simp
next
  case (Cons y ys)
  show ?case
  proof (cases "y = x")
    case True
    then have "\<forall>z\<in>set ys. f z \<noteq> f x" using Cons.prems by (auto simp: image_iff)
    then have "filter (\<lambda>y. f y = f x) ys = []"
      by (simp add: filter_empty_conv)
    then show ?thesis using True by simp
  next
    case False
    then have x: "x \<in> set ys" using Cons.prems by simp
    then have "f y \<noteq> f x" using Cons.prems by (auto simp: image_iff)
    then show ?thesis using Cons.IH x Cons.prems by simp
  qed
qed

lemma find_first_hit:
  "\<forall>x\<in>set xs. \<not> P x \<Longrightarrow> P y \<Longrightarrow> find P (xs @ y # ys) = Some y"
  by (induction xs) auto

lemma resolver_distinct_ids: "distinct (map selfIdOf (groupLatestHeadsBySelfId es))"
  unfolding groupLatestHeadsBySelfId_def
  by (simp only: distinct_map_sort_key winners_ids) (simp add: loop_distinct)

lemma resolver_winner:
  assumes s: "s \<noteq> ''''"
    and w: "find (\<lambda>m. selfIdOf m = s \<and> (\<forall>e\<in>set es. selfIdOf (node e) = s \<longrightarrow> heightOf (node e) \<le> heightOf m))
              (map node es) = Some w"
  shows "filter (\<lambda>n. selfIdOf n = s) (groupLatestHeadsBySelfId es) = [w]"
proof -
  let ?m = "foldl groupLatest_step [] es"
  let ?top = "\<lambda>m. selfIdOf m = s \<and> (\<forall>e\<in>set es. selfIdOf (node e) = s \<longrightarrow> heightOf (node e) \<le> heightOf m)"
  from w have win: "w \<in> set (map node es)" and wtop: "?top w"
    by (auto simp: find_Some_iff)
  then have "s \<in> (selfIdOf \<circ> node) ` set es - {''''}"
    using s by auto
  then have "s \<in> fst ` set ?m"
    by (simp only: winners_keys)
  then obtain n where kn: "(s, n) \<in> set ?m" by auto
  from winners_entries [OF kn]
  have nid: "selfIdOf n = s" and nin: "n \<in> node ` set es"
    and nmax: "\<forall>e\<in>set es. selfIdOf (node e) = s \<longrightarrow> heightOf (node e) \<le> heightOf n"
    and nfirst: "firstWith s (heightOf n) (map node es) = Some n"
    by blast+
  have same: "?top x \<longleftrightarrow> selfIdOf x = s \<and> heightOf x = heightOf n" if "x \<in> set (map node es)" for x
  proof
    assume t: "?top x"
    from that obtain e where "e \<in> set es" "x = node e" by auto
    with nmax t have "heightOf x \<le> heightOf n" by simp
    moreover from nin obtain e' where "e' \<in> set es" "n = node e'" by auto
    with t nid have "heightOf n \<le> heightOf x" by simp
    ultimately show "selfIdOf x = s \<and> heightOf x = heightOf n" using t by simp
  next
    assume "selfIdOf x = s \<and> heightOf x = heightOf n"
    then show "?top x" using nmax by simp
  qed
  have "find ?top (map node es) = find (\<lambda>m. selfIdOf m = s \<and> heightOf m = heightOf n) (map node es)"
    by (rule find_cong) (use same in auto)
  then have "w = n"
    using w nfirst by (simp add: firstWith_def)
  have "n \<in> set (groupLatestHeadsBySelfId es)"
    using kn by (force simp: groupLatestHeadsBySelfId_def)
  from filter_key_single [OF resolver_distinct_ids this] nid \<open>w = n\<close>
  show ?thesis by simp
qed

text \<open>
  Claim C2, as amended. Let two records of the input have the same identity (the first
  value of their Self-Id tags) and the same height, one before the other. When that
  identity is not the empty string, no record of the identity is higher, and no record of
  the identity before the earlier one has the same height, the earlier record is kept: it
  is the one record of that identity in the output. In every case the later record never
  replaces the earlier one: the resolver returns what it returns on the input without the
  later record. In general, for a non-empty identity \<open>s\<close>, the one record of identity \<open>s\<close>
  in the output is the earliest record of the input among those of identity \<open>s\<close> whose
  height is the greatest of the group, and every record of the output is the earliest
  record of the input among those of its identity and its height. The resolver is a
  function of its input list alone (it reads no other state), so equal inputs give equal
  outputs.
\<close>

theorem resolver_tie_keeps_earlier:
  assumes "selfIdOf (node a) = selfIdOf (node b)" and "heightOf (node a) = heightOf (node b)"
  shows "(selfIdOf (node a) \<noteq> ''''
            \<and> (\<forall>e\<in>set (pre @ a # mid @ b # post). selfIdOf (node e) = selfIdOf (node a)
                  \<longrightarrow> heightOf (node e) \<le> heightOf (node a))
            \<and> (\<forall>e\<in>set pre. selfIdOf (node e) = selfIdOf (node a)
                  \<longrightarrow> heightOf (node e) < heightOf (node a))
          \<longrightarrow> filter (\<lambda>n. selfIdOf n = selfIdOf (node a))
                 (groupLatestHeadsBySelfId (pre @ a # mid @ b # post)) = [node a])
         \<and> groupLatestHeadsBySelfId (pre @ a # mid @ b # post)
             = groupLatestHeadsBySelfId (pre @ a # mid @ post)
         \<and> (s \<noteq> ''''
              \<and> find (\<lambda>m. selfIdOf m = s
                           \<and> (\<forall>e\<in>set es. selfIdOf (node e) = s \<longrightarrow> heightOf (node e) \<le> heightOf m))
                   (map node es) = Some w
            \<longrightarrow> filter (\<lambda>n. selfIdOf n = s) (groupLatestHeadsBySelfId es) = [w])
         \<and> (\<forall>n\<in>set (groupLatestHeadsBySelfId es).
              find (\<lambda>m. selfIdOf m = selfIdOf n \<and> heightOf m = heightOf n) (map node es) = Some n)"
proof (intro conjI impI)
  assume h: "selfIdOf (node a) \<noteq> ''''
            \<and> (\<forall>e\<in>set (pre @ a # mid @ b # post). selfIdOf (node e) = selfIdOf (node a)
                  \<longrightarrow> heightOf (node e) \<le> heightOf (node a))
            \<and> (\<forall>e\<in>set pre. selfIdOf (node e) = selfIdOf (node a)
                  \<longrightarrow> heightOf (node e) < heightOf (node a))"
  let ?es = "pre @ a # mid @ b # post"
  let ?top = "\<lambda>m. selfIdOf m = selfIdOf (node a)
                 \<and> (\<forall>e\<in>set ?es. selfIdOf (node e) = selfIdOf (node a) \<longrightarrow> heightOf (node e) \<le> heightOf m)"
  have "\<forall>x\<in>set (map node pre). \<not> ?top x"
  proof
    fix x assume "x \<in> set (map node pre)"
    then obtain e where e: "e \<in> set pre" "x = node e" by auto
    show "\<not> ?top x"
    proof
      assume t: "?top x"
      then have "heightOf (node e) < heightOf (node a)" using h e by simp
      moreover have "heightOf (node a) \<le> heightOf x" using t by simp
      ultimately show False using e by simp
    qed
  qed
  moreover have "?top (node a)" using h by simp
  ultimately have "find ?top (map node pre @ node a # map node (mid @ b # post)) = Some (node a)"
    by (rule find_first_hit)
  then have "find ?top (map node ?es) = Some (node a)" by simp
  with h show "filter (\<lambda>n. selfIdOf n = selfIdOf (node a)) (groupLatestHeadsBySelfId ?es) = [node a]"
    using resolver_winner [of "selfIdOf (node a)" ?es "node a"] by blast
next
  show "groupLatestHeadsBySelfId (pre @ a # mid @ b # post)
           = groupLatestHeadsBySelfId (pre @ a # mid @ post)"
    unfolding groupLatestHeadsBySelfId_def
    by (simp only: later_tie_ignored [OF assms])
next
  assume "s \<noteq> ''''
              \<and> find (\<lambda>m. selfIdOf m = s
                           \<and> (\<forall>e\<in>set es. selfIdOf (node e) = s \<longrightarrow> heightOf (node e) \<le> heightOf m))
                   (map node es) = Some w"
  then show "filter (\<lambda>n. selfIdOf n = s) (groupLatestHeadsBySelfId es) = [w]"
    using resolver_winner [of s es w] by blast
next
  show "\<forall>n\<in>set (groupLatestHeadsBySelfId es).
              find (\<lambda>m. selfIdOf m = selfIdOf n \<and> heightOf m = heightOf n) (map node es) = Some n"
  proof
    fix n assume "n \<in> set (groupLatestHeadsBySelfId es)"
    then obtain k where "(k, n) \<in> set (foldl groupLatest_step [] es)"
      by (auto simp: groupLatestHeadsBySelfId_def)
    from winners_entries [OF this] show "find (\<lambda>m. selfIdOf m = selfIdOf n \<and> heightOf m = heightOf n) (map node es) = Some n"
      by (simp add: firstWith_def)
  qed
qed

text \<open>
  The claim as stated (of any two records with equal height and the same identity tag
  value, the earlier is kept) fails for the tag value \<open>""\<close>: both records carry the Self-Id
  tag with that value and have height 12, and the resolver returns neither.
\<close>

theorem resolver_tie_blank_counterexample:
  "tagFirst (tagsToMap (Some (tags (node edge_blank)))) ''Self-Id'' = Some ''''
   \<and> tagFirst (tagsToMap (Some (tags (node edge_blank2)))) ''Self-Id'' = Some ''''
   \<and> heightOf (node edge_blank) = heightOf (node edge_blank2)
   \<and> groupLatestHeadsBySelfId [edge_blank, edge_blank2] = []"
  by code_simp

text \<open>
  \<open>tx1\<close> and \<open>tx3\<close> have identity \<open>S\<close> and height 10; \<open>tx1\<close> comes first and is the record
  of identity \<open>S\<close> that is returned, before the record of identity \<open>T\<close>, which is in no
  block. With \<open>tx2\<close> (identity \<open>S\<close>, height 11) between them, \<open>tx2\<close> is returned.
\<close>

theorem resolver_tie_keeps_earlier_witness:
  "selfIdOf (node edge_tx1) = selfIdOf (node edge_tx3)
   \<and> heightOf (node edge_tx1) = heightOf (node edge_tx3)
   \<and> node edge_tx1 \<noteq> node edge_tx3
   \<and> selfIdOf (node edge_tx1) = ''S''
   \<and> filter (\<lambda>n. selfIdOf n = ''S'') (groupLatestHeadsBySelfId [edge_other, edge_tx1, edge_tx3])
       = [node edge_tx1]
   \<and> groupLatestHeadsBySelfId [edge_other, edge_tx1, edge_tx3] = [node edge_tx1, node edge_other]
   \<and> filter (\<lambda>n. selfIdOf n = ''S'') (groupLatestHeadsBySelfId [edge_tx1, edge_tx2, edge_tx3])
       = [node edge_tx2]
   \<and> find (\<lambda>m. selfIdOf m = selfIdOf (node edge_tx1) \<and> heightOf m = heightOf (node edge_tx1))
         (map node [edge_other, edge_tx1, edge_tx3]) = Some (node edge_tx1)"
proof -
  have h1: "selfIdOf (node edge_tx1) = selfIdOf (node edge_tx3)"
    by code_simp
  have h2: "heightOf (node edge_tx1) = heightOf (node edge_tx3)"
    by code_simp
  have h3: "node edge_tx1 \<noteq> node edge_tx3"
    by (simp add: edge_tx1_def edge_tx3_def)
  have s: "selfIdOf (node edge_tx1) = ''S''"
    by code_simp
  have k: "selfIdOf (node edge_tx1) \<noteq> ''''
            \<and> (\<forall>e\<in>set ([edge_other] @ edge_tx1 # [] @ edge_tx3 # []).
                  selfIdOf (node e) = selfIdOf (node edge_tx1)
                  \<longrightarrow> heightOf (node e) \<le> heightOf (node edge_tx1))
            \<and> (\<forall>e\<in>set [edge_other]. selfIdOf (node e) = selfIdOf (node edge_tx1)
                  \<longrightarrow> heightOf (node e) < heightOf (node edge_tx1))"
    by code_simp
  have g: "''S'' \<noteq> ''''
              \<and> find (\<lambda>m. selfIdOf m = ''S''
                           \<and> (\<forall>e\<in>set [edge_tx1, edge_tx2, edge_tx3].
                                 selfIdOf (node e) = ''S'' \<longrightarrow> heightOf (node e) \<le> heightOf m))
                   (map node [edge_tx1, edge_tx2, edge_tx3]) = Some (node edge_tx2)"
    by code_simp
  have short: "groupLatestHeadsBySelfId ([edge_other] @ edge_tx1 # [] @ [])
                 = [node edge_tx1, node edge_other]"
    by code_simp
  note t = resolver_tie_keeps_earlier [OF h1 h2, where pre = "[edge_other]" and mid = "[]"
      and post = "[]" and s = "''S''" and es = "[edge_tx1, edge_tx2, edge_tx3]"
      and w = "node edge_tx2"]
  have c1: "filter (\<lambda>n. selfIdOf n = selfIdOf (node edge_tx1))
              (groupLatestHeadsBySelfId ([edge_other] @ edge_tx1 # [] @ edge_tx3 # [])) = [node edge_tx1]"
    using t k by blast
  have c2: "groupLatestHeadsBySelfId ([edge_other] @ edge_tx1 # [] @ edge_tx3 # [])
              = groupLatestHeadsBySelfId ([edge_other] @ edge_tx1 # [] @ [])"
    using t by blast
  have c3: "filter (\<lambda>n. selfIdOf n = ''S'') (groupLatestHeadsBySelfId [edge_tx1, edge_tx2, edge_tx3])
       = [node edge_tx2]"
    using t g by blast
  have out: "groupLatestHeadsBySelfId [edge_other, edge_tx1, edge_tx3] = [node edge_tx1, node edge_other]"
    using c2 short by simp
  have "\<forall>n\<in>set (groupLatestHeadsBySelfId [edge_other, edge_tx1, edge_tx3]).
              find (\<lambda>m. selfIdOf m = selfIdOf n \<and> heightOf m = heightOf n)
                (map node [edge_other, edge_tx1, edge_tx3]) = Some n"
    using resolver_tie_keeps_earlier [OF h1 h2, where es = "[edge_other, edge_tx1, edge_tx3]"]
    by blast
  then have c4: "find (\<lambda>m. selfIdOf m = selfIdOf (node edge_tx1) \<and> heightOf m = heightOf (node edge_tx1))
         (map node [edge_other, edge_tx1, edge_tx3]) = Some (node edge_tx1)"
    using out by simp
  from c1 have c1': "filter (\<lambda>n. selfIdOf n = ''S'') (groupLatestHeadsBySelfId [edge_other, edge_tx1, edge_tx3])
       = [node edge_tx1]"
    by (simp add: s)
  from h1 h2 h3 s c1' out c3 c4 show ?thesis by blast
qed

section \<open>Properties of the snapshot validators\<close>

lemma validateIdeas_snd:
  "snd (validateIdeas its errs ids) = snd (validateIdeas its [] ids)"
proof (induction its arbitrary: errs ids)
  case Nil
  then show ?case by simp
next
  case (Cons it rest)
  show ?case
    by (simp add: Let_def) (metis Cons.IH)
qed

lemma validateIdeas_grows:
  "\<exists>ex. fst (validateIdeas its errs ids) = errs @ ex \<and>
     (ex = [] \<longrightarrow>
        (\<forall>it\<in>set its. isRecord it \<and> isString (getField it ''idea_id'') \<and> isString (getField it ''tx_id''))
        \<and> distinct (map (\<lambda>it. getField it ''idea_id'') its)
        \<and> (\<forall>it\<in>set its. \<not> idsHas ids (getField it ''idea_id'')))"
proof (induction its arbitrary: errs ids)
  case Nil
  then show ?case by simp
next
  case (Cons it rest)
  show ?case
  proof (cases "\<not> isRecord it \<or> \<not> isString (getField it ''idea_id'') \<or> \<not> isString (getField it ''tx_id'')")
    case True
    from Cons.IH [of "errs @ [SnapshotIdeasInvalidItem]" ids]
    obtain ex where "fst (validateIdeas rest (errs @ [SnapshotIdeasInvalidItem]) ids)
        = (errs @ [SnapshotIdeasInvalidItem]) @ ex" by blast
    then have "fst (validateIdeas (it # rest) errs ids) = errs @ (SnapshotIdeasInvalidItem # ex)"
      using True by auto
    then show ?thesis by blast
  next
    case False
    then obtain s where s: "getField it ''idea_id'' = Some (JStr s)"
      by (cases "getField it ''idea_id''" rule: isString.cases) auto
    let ?e = "if s \<in> set ids then [DuplicateIdeaId s] else []"
    have step: "validateIdeas (it # rest) errs ids = validateIdeas rest (errs @ ?e) (ids @ [s])"
      using False s by (simp add: Let_def)
    from Cons.IH [of "errs @ ?e" "ids @ [s]"]
    obtain ex where ex: "fst (validateIdeas rest (errs @ ?e) (ids @ [s])) = (errs @ ?e) @ ex"
      and ok: "ex = [] \<longrightarrow>
        (\<forall>it\<in>set rest. isRecord it \<and> isString (getField it ''idea_id'') \<and> isString (getField it ''tx_id''))
        \<and> distinct (map (\<lambda>it. getField it ''idea_id'') rest)
        \<and> (\<forall>it\<in>set rest. \<not> idsHas (ids @ [s]) (getField it ''idea_id''))"
      by blast
    have "fst (validateIdeas (it # rest) errs ids) = errs @ (?e @ ex)"
      using step ex by simp
    moreover have "?e @ ex = [] \<longrightarrow>
        (\<forall>i\<in>set (it # rest). isRecord i \<and> isString (getField i ''idea_id'') \<and> isString (getField i ''tx_id''))
        \<and> distinct (map (\<lambda>it. getField it ''idea_id'') (it # rest))
        \<and> (\<forall>i\<in>set (it # rest). \<not> idsHas ids (getField i ''idea_id''))"
    proof
      assume "?e @ ex = []"
      then have e: "s \<notin> set ids" and "ex = []" by (auto split: if_splits)
      with ok have r: "\<forall>it\<in>set rest. isRecord it \<and> isString (getField it ''idea_id'') \<and> isString (getField it ''tx_id'')"
        and d: "distinct (map (\<lambda>it. getField it ''idea_id'') rest)"
        and n: "\<forall>it\<in>set rest. \<not> idsHas (ids @ [s]) (getField it ''idea_id'')"
        by blast+
      have fresh: "getField it ''idea_id'' \<notin> (\<lambda>it. getField it ''idea_id'') ` set rest"
        using n s by force
      have "\<forall>i\<in>set rest. \<not> idsHas ids (getField i ''idea_id'')"
      proof
        fix i assume i: "i \<in> set rest"
        with r obtain t where "getField i ''idea_id'' = Some (JStr t)"
          by (cases "getField i ''idea_id''" rule: isString.cases) auto
        with n i show "\<not> idsHas ids (getField i ''idea_id'')" by fastforce
      qed
      then show "(\<forall>i\<in>set (it # rest). isRecord i \<and> isString (getField i ''idea_id'') \<and> isString (getField i ''tx_id''))
        \<and> distinct (map (\<lambda>it. getField it ''idea_id'') (it # rest))
        \<and> (\<forall>i\<in>set (it # rest). \<not> idsHas ids (getField i ''idea_id''))"
        using False r d fresh e s by simp
    qed
    ultimately show ?thesis by blast
  qed
qed

lemma validateEdges_grows:
  "\<exists>ex. validateEdges es ids errs = errs @ ex \<and>
     (\<forall>e\<in>set es. if isRecord e
        then (\<not> idsHas ids (getField e ''from_idea_id'') \<or> \<not> idsHas ids (getField e ''to_idea_id'')
               \<longrightarrow> EdgeUnknownIdeaIds e \<in> set ex)
        else SnapshotEdgesInvalidItem \<in> set ex)"
proof (induction es arbitrary: errs)
  case Nil
  then show ?case by simp
next
  case (Cons e rest)
  let ?new = "if \<not> isRecord e then [SnapshotEdgesInvalidItem]
     else (if \<not> idsHas ids (getField e ''from_idea_id'') \<or> \<not> idsHas ids (getField e ''to_idea_id'')
              then [EdgeUnknownIdeaIds e] else [])
           @ (if \<not> idsHas EDGE_TYPES (getField e ''type'')
              then [InvalidEdgeType (getField e ''type'')] else [])"
  have step: "validateEdges (e # rest) ids errs = validateEdges rest ids (errs @ ?new)"
    by simp
  from Cons.IH [of "errs @ ?new"]
  obtain ex where ex: "validateEdges rest ids (errs @ ?new) = (errs @ ?new) @ ex"
    and r: "\<forall>e\<in>set rest. if isRecord e
        then (\<not> idsHas ids (getField e ''from_idea_id'') \<or> \<not> idsHas ids (getField e ''to_idea_id'')
               \<longrightarrow> EdgeUnknownIdeaIds e \<in> set ex)
        else SnapshotEdgesInvalidItem \<in> set ex"
    by blast
  have "validateEdges (e # rest) ids errs = errs @ (?new @ ex)"
    using step ex by (simp only: append_assoc)
  moreover have "\<forall>e'\<in>set (e # rest). if isRecord e'
        then (\<not> idsHas ids (getField e' ''from_idea_id'') \<or> \<not> idsHas ids (getField e' ''to_idea_id'')
               \<longrightarrow> EdgeUnknownIdeaIds e' \<in> set (?new @ ex))
        else SnapshotEdgesInvalidItem \<in> set (?new @ ex)"
    using r by auto
  ultimately show ?case by blast
qed

lemma validateEdges_prefix: "\<exists>ex. validateEdges es ids errs = errs @ ex"
  using validateEdges_grows [of es ids errs] by blast

lemma validateSnapshotPayload_split:
  "\<exists>e0 st.
     st = (case asArray (getField doc ''ideas'') of
             Some its \<Rightarrow> validateIdeas its e0 [] | None \<Rightarrow> (e0, []))
     \<and> validateSnapshotPayload doc =
          (case asArray (getField doc ''edges'') of
             Some es \<Rightarrow> validateEdges es (snd st) (fst st)
           | None \<Rightarrow> fst st)
     \<and> (e0 = [] \<longrightarrow> (\<exists>its. asArray (getField doc ''ideas'') = Some its \<and> its \<noteq> []))"
proof -
  define e0 where "e0 =
            (if \<not> isRecord doc then [SnapshotNotObject] else [])
            @ (if getField doc ''schema'' \<noteq> Some (JStr ''afterlife.snapshot@1'')
               then [SnapshotSchema] else [])
            @ (if \<not> isString (getField doc ''self_id'') then [SnapshotSelfIdMissing] else [])
            @ (case asArray (getField doc ''ideas'') of
                 Some its \<Rightarrow> if length its = 0 then [SnapshotIdeasMissingEmpty] else []
               | None \<Rightarrow> [SnapshotIdeasMissingEmpty])"
  define st where "st = (case asArray (getField doc ''ideas'') of
               Some its \<Rightarrow> validateIdeas its e0 []
             | None \<Rightarrow> (e0, []))"
  have v: "validateSnapshotPayload doc =
      (case asArray (getField doc ''edges'') of
           Some es \<Rightarrow> validateEdges es (snd st) (fst st)
         | None \<Rightarrow> fst st)"
    unfolding validateSnapshotPayload_def e0_def st_def
    by (simp add: Let_def case_prod_beta)
  have "e0 = [] \<Longrightarrow> \<exists>its. asArray (getField doc ''ideas'') = Some its \<and> its \<noteq> []"
    unfolding e0_def by (auto split: option.splits if_splits)
  with st_def v show ?thesis by blast
qed

lemma validateSnapshotPayload_accepts:
  assumes ok: "validateSnapshotPayload doc = []"
  shows "\<exists>its. asArray (getField doc ''ideas'') = Some its \<and> its \<noteq> []
           \<and> distinct (map (\<lambda>it. getField it ''idea_id'') its)
           \<and> (\<forall>it\<in>set its. isRecord it \<and> isString (getField it ''idea_id'')
                 \<and> isString (getField it ''tx_id''))"
proof -
  obtain e0 st where
    st_def: "st = (case asArray (getField doc ''ideas'') of
             Some its \<Rightarrow> validateIdeas its e0 [] | None \<Rightarrow> (e0, []))"
    and v: "validateSnapshotPayload doc =
      (case asArray (getField doc ''edges'') of
           Some es \<Rightarrow> validateEdges es (snd st) (fst st)
         | None \<Rightarrow> fst st)"
    and e0: "e0 = [] \<longrightarrow> (\<exists>its. asArray (getField doc ''ideas'') = Some its \<and> its \<noteq> [])"
    using validateSnapshotPayload_split [of doc] by blast
  have "\<exists>ex. validateSnapshotPayload doc = fst st @ ex"
    unfolding v using validateEdges_prefix
    by (auto split: option.splits)
  then have st_nil: "fst st = []" using ok by simp
  have "\<exists>ex. fst st = e0 @ ex"
    unfolding st_def using validateIdeas_grows
    by (auto split: option.splits) blast
  then have e0_nil: "e0 = []" using st_nil by simp
  then obtain its where its: "asArray (getField doc ''ideas'') = Some its" and ne: "its \<noteq> []"
    using e0 by blast
  have st: "fst st = fst (validateIdeas its [] [])"
    unfolding st_def using its e0_nil by simp
  from validateIdeas_grows [of its "[]" "[]"] st st_nil
  have "(\<forall>it\<in>set its. isRecord it \<and> isString (getField it ''idea_id'') \<and> isString (getField it ''tx_id''))
        \<and> distinct (map (\<lambda>it. getField it ''idea_id'') its)"
    by auto
  with its ne show ?thesis by blast
qed

lemma parseIdeas_ok: "parseSelfSnapshot doc = Inr snap \<Longrightarrow> ideas snap \<noteq> []"
  by (auto simp: parseSelfSnapshot_def Let_def split: if_splits option.splits)

text \<open>
  Claim C6, as amended. The strict validator \<open>validateSnapshotPayload\<close> rejects (returns a
  non-empty error list for) every snapshot whose ideas list has two entries, at different
  positions, with the same \<open>idea_id\<close>; every snapshot it accepts has an ideas list that is
  not empty and whose \<open>idea_id\<close> values are strings, pairwise different. The lenient parser
  \<open>parseSelfSnapshot\<close> guarantees only that the parsed ideas list is not empty: it makes no
  uniqueness check.
\<close>

theorem snapshot_duplicate_idea_ids:
  "(asArray (getField doc ''ideas'') = Some its \<and> i < j \<and> j < length its
      \<and> getField (its ! i) ''idea_id'' = getField (its ! j) ''idea_id''
      \<longrightarrow> validateSnapshotPayload doc \<noteq> [])
   \<and> (validateSnapshotPayload doc = [] \<longrightarrow>
        (\<exists>its. asArray (getField doc ''ideas'') = Some its \<and> its \<noteq> []
           \<and> distinct (map (\<lambda>it. getField it ''idea_id'') its)
           \<and> (\<forall>it\<in>set its. isString (getField it ''idea_id''))))
   \<and> (parseSelfSnapshot doc = Inr snap \<longrightarrow> ideas snap \<noteq> [])"
proof (intro conjI impI)
  assume a: "asArray (getField doc ''ideas'') = Some its \<and> i < j \<and> j < length its
      \<and> getField (its ! i) ''idea_id'' = getField (its ! j) ''idea_id''"
  show "validateSnapshotPayload doc \<noteq> []"
  proof
    assume "validateSnapshotPayload doc = []"
    from validateSnapshotPayload_accepts [OF this] a
    have d: "distinct (map (\<lambda>it. getField it ''idea_id'') its)" by auto
    have li: "i < length (map (\<lambda>it. getField it ''idea_id'') its)"
      and lj: "j < length (map (\<lambda>it. getField it ''idea_id'') its)"
      using a by simp_all
    have "map (\<lambda>it. getField it ''idea_id'') its ! i = map (\<lambda>it. getField it ''idea_id'') its ! j"
      using a by simp
    then have "i = j"
      using nth_eq_iff_index_eq [OF d li lj] by simp
    with a show False by simp
  qed
next
  assume "validateSnapshotPayload doc = []"
  from validateSnapshotPayload_accepts [OF this]
  show "\<exists>its. asArray (getField doc ''ideas'') = Some its \<and> its \<noteq> []
           \<and> distinct (map (\<lambda>it. getField it ''idea_id'') its)
           \<and> (\<forall>it\<in>set its. isString (getField it ''idea_id''))"
    by blast
next
  assume "parseSelfSnapshot doc = Inr snap"
  then show "ideas snap \<noteq> []" by (rule parseIdeas_ok)
qed

text \<open>
  The claim as stated fails on the lenient parser: a snapshot with two ideas of the same
  \<open>idea_id\<close> is accepted by \<open>parseSelfSnapshot\<close>, and both entries are in the result.
\<close>

theorem snapshot_duplicate_idea_ids_counterexample:
  "parseSelfSnapshot snapshot_dup =
     Inr \<lparr>schema = ''afterlife.snapshot@1'', self_id = ''self-abc'', parent_snapshot_tx = None,
          ideas = [\<lparr>idea_id = ''mission'', tx_id = ''t1''\<rparr>, \<lparr>idea_id = ''mission'', tx_id = ''t2''\<rparr>],
          edges = None, snapshot_notes = None, created_at = None\<rparr>"
  by code_simp

text \<open>
  The duplicated snapshot is rejected by the strict validator; the valid one is accepted and
  its ids are different.
\<close>

theorem snapshot_duplicate_idea_ids_witness:
  "asArray (getField snapshot_dup ''ideas'')
      = Some [idea_entry ''mission'' ''t1'', idea_entry ''mission'' ''t2'']
   \<and> (0::nat) < 1 \<and> 1 < length [idea_entry ''mission'' ''t1'', idea_entry ''mission'' ''t2'']
   \<and> getField ([idea_entry ''mission'' ''t1'', idea_entry ''mission'' ''t2''] ! 0) ''idea_id''
       = getField ([idea_entry ''mission'' ''t1'', idea_entry ''mission'' ''t2''] ! 1) ''idea_id''
   \<and> validateSnapshotPayload snapshot_dup \<noteq> []
   \<and> validateSnapshotPayload snapshot_ok = []
   \<and> distinct (map (\<lambda>it. getField it ''idea_id'') [idea_entry ''mission'' ''t1'', idea_entry ''vision'' ''t2''])
   \<and> ideas \<lparr>schema = ''afterlife.snapshot@1'', self_id = ''self-abc'', parent_snapshot_tx = None,
          ideas = [\<lparr>idea_id = ''mission'', tx_id = ''t1''\<rparr>, \<lparr>idea_id = ''mission'', tx_id = ''t2''\<rparr>],
          edges = None, snapshot_notes = None, created_at = None\<rparr> \<noteq> []"
proof -
  let ?its = "[idea_entry ''mission'' ''t1'', idea_entry ''mission'' ''t2'']"
  let ?snap = "\<lparr>schema = ''afterlife.snapshot@1'', self_id = ''self-abc'', parent_snapshot_tx = None,
          ideas = [\<lparr>idea_id = ''mission'', tx_id = ''t1''\<rparr>, \<lparr>idea_id = ''mission'', tx_id = ''t2''\<rparr>],
          edges = None, snapshot_notes = None, created_at = None\<rparr>"
  have h1: "asArray (getField snapshot_dup ''ideas'') = Some ?its"
    by code_simp
  have h2: "(0::nat) < 1 \<and> 1 < length ?its"
    by simp
  have h3: "getField (?its ! 0) ''idea_id'' = getField (?its ! 1) ''idea_id''"
    by code_simp
  have h4: "validateSnapshotPayload snapshot_ok = []"
    by code_simp
  have h5: "parseSelfSnapshot snapshot_dup = Inr ?snap"
    by code_simp
  have h6: "asArray (getField snapshot_ok ''ideas'') = Some [idea_entry ''mission'' ''t1'', idea_entry ''vision'' ''t2'']"
    by code_simp
  note t = snapshot_duplicate_idea_ids
  have c1: "validateSnapshotPayload snapshot_dup \<noteq> []"
    using t [of snapshot_dup ?its 0 1] h1 h2 h3 by blast
  have c2: "distinct (map (\<lambda>it. getField it ''idea_id'') [idea_entry ''mission'' ''t1'', idea_entry ''vision'' ''t2''])"
    using t [of snapshot_ok] h4 h6 by auto
  have c3: "ideas ?snap \<noteq> []"
    using t [of snapshot_dup _ _ _ ?snap] h5 by blast
  from h1 h2 h3 h4 c1 c2 c3 show ?thesis by blast
qed

lemma validateSnapshotPayload_edges:
  assumes es: "asArray (getField doc ''edges'') = Some es"
  shows "\<exists>pre. validateSnapshotPayload doc = validateEdges es (collectedIds doc) pre"
proof -
  obtain e0 st where
    st_def: "st = (case asArray (getField doc ''ideas'') of
             Some its \<Rightarrow> validateIdeas its e0 [] | None \<Rightarrow> (e0, []))"
    and v: "validateSnapshotPayload doc =
      (case asArray (getField doc ''edges'') of
           Some es \<Rightarrow> validateEdges es (snd st) (fst st)
         | None \<Rightarrow> fst st)"
    using validateSnapshotPayload_split [of doc] by blast
  have "snd st = collectedIds doc"
  proof (cases "asArray (getField doc ''ideas'')")
    case None
    then show ?thesis by (simp add: st_def collectedIds_def)
  next
    case (Some its)
    then have "snd st = snd (validateIdeas its e0 [])" "collectedIds doc = snd (validateIdeas its [] [])"
      by (simp_all add: st_def collectedIds_def)
    then show ?thesis using validateIdeas_snd [of its e0 "[]"] by simp
  qed
  then have "validateSnapshotPayload doc = validateEdges es (collectedIds doc) (fst st)"
    using v es by simp
  then show ?thesis by blast
qed

text \<open>
  Every id that the validator has collected is an \<open>idea_id\<close> string of an entry of the
  document's ideas array: an id that the document does not declare is not in the set.
\<close>

lemma validateIdeas_collects_declared:
  "set (snd (validateIdeas its errs ids))
     \<subseteq> set ids \<union> set (List.map_filter (\<lambda>it. getString it ''idea_id'') its)"
proof (induction its arbitrary: errs ids)
  case Nil
  then show ?case by simp
next
  case (Cons it rest)
  show ?case
  proof (cases "\<not> isRecord it \<or> \<not> isString (getField it ''idea_id'')
                  \<or> \<not> isString (getField it ''tx_id'')")
    case True
    then have "validateIdeas (it # rest) errs ids
                 = validateIdeas rest (errs @ [SnapshotIdeasInvalidItem]) ids"
      by auto
    then show ?thesis
      using Cons.IH [of "errs @ [SnapshotIdeasInvalidItem]" ids]
      by (auto split: option.splits)
  next
    case False
    then obtain i where i: "getField it ''idea_id'' = Some (JStr i)"
      by (cases "getField it ''idea_id''" rule: isString.cases) auto
    have step: "validateIdeas (it # rest) errs ids
                  = validateIdeas rest (if i \<in> set ids then errs @ [DuplicateIdeaId i] else errs)
                      (ids @ [i])"
      using False i by (simp add: Let_def)
    have "getString it ''idea_id'' = Some i"
      using i by simp
    then show ?thesis
      using Cons.IH [of "if i \<in> set ids then errs @ [DuplicateIdeaId i] else errs" "ids @ [i]"]
      unfolding step
      by (auto simp del: getString.simps)
  qed
qed

lemma collectedIds_declared: "set (collectedIds doc) \<subseteq> set (declaredIdeaIds doc)"
proof (cases "asArray (getField doc ''ideas'')")
  case None
  then show ?thesis by (simp add: collectedIds_def declaredIdeaIds_def)
next
  case (Some its)
  then show ?thesis
    using validateIdeas_collects_declared [of its "[]" "[]"]
    by (simp add: collectedIds_def declaredIdeaIds_def)
qed

lemma idsHas_mono: "set ids \<subseteq> set ids' \<Longrightarrow> idsHas ids v \<Longrightarrow> idsHas ids' v"
  by (induction ids v rule: idsHas.induct) auto

lemma parseEdges_keeps:
  assumes "e \<in> set es" "isRecord e"
    and "truthyStr (getString e ''from_idea_id'')" "truthyStr (getString e ''to_idea_id'')"
    and "getString e ''type'' = Some ty" "ty \<in> set allowed"
  shows "\<lparr>from_idea_id = the (getString e ''from_idea_id''),
           to_idea_id = the (getString e ''to_idea_id''), edge_type = ty\<rparr> \<in> set (parseEdges es)"
  using assms
proof (induction es)
  case Nil
  then show ?case by simp
next
  case (Cons x xs)
  have ty: "truthyStr (Some ty)" using Cons.prems(6) by (auto simp: allowed_def)
  show ?case
  proof (cases "x = e")
    case True
    then show ?thesis using Cons.prems ty by (simp add: Let_def del: getString.simps)
  next
    case False
    then have "e \<in> set xs" using Cons.prems by simp
    from Cons.IH [OF this Cons.prems(2-6)] show ?thesis
      by (simp add: Let_def del: getString.simps)
  qed
qed

text \<open>
  Claim C5, as amended. When the edges array of a snapshot document contains an edge whose
  \<open>from_idea_id\<close> or \<open>to_idea_id\<close> is not among the declared idea ids (the \<open>idea_id\<close>
  strings of the entries of the document's ideas array), the strict path
  \<open>validateSnapshotPayload\<close> reports an error for that edge: "Edge references unknown idea
  ids", with the edge, when the edge is an object, and "edges contains invalid item" when
  it is not. The lenient path \<open>parseSelfSnapshot\<close> does not reject the snapshot
  because of the edge, and it does not drop the edge either: an edge with non-empty string
  \<open>from_idea_id\<close>, \<open>to_idea_id\<close> and an allowed \<open>type\<close> is in the parsed result whether or not
  its ids are declared. Whether \<open>parseSelfSnapshot\<close> succeeds depends on the schema, the
  \<open>self_id\<close> and the ideas alone.
\<close>

theorem snapshot_edge_undeclared_ids:
  assumes "asArray (getField doc ''edges'') = Some es" and "e \<in> set es"
    and "\<not> idsHas (declaredIdeaIds doc) (getField e ''from_idea_id'')
         \<or> \<not> idsHas (declaredIdeaIds doc) (getField e ''to_idea_id'')"
  shows "(if isRecord e then EdgeUnknownIdeaIds e else SnapshotEdgesInvalidItem)
           \<in> set (validateSnapshotPayload doc)
    \<and> (parseSelfSnapshot doc = Inr snap
         \<and> truthyStr (getString e ''from_idea_id'') \<and> truthyStr (getString e ''to_idea_id'')
         \<and> getString e ''type'' = Some ty \<and> ty \<in> set allowed
       \<longrightarrow> edges snap \<noteq> None
           \<and> \<lparr>from_idea_id = the (getString e ''from_idea_id''),
               to_idea_id = the (getString e ''to_idea_id''), edge_type = ty\<rparr> \<in> set (the (edges snap)))
    \<and> ((\<exists>s. parseSelfSnapshot doc = Inr s) \<longleftrightarrow>
         isRecord doc \<and> getString doc ''schema'' = Some ''afterlife.snapshot@1''
         \<and> truthyStr (getString doc ''self_id'')
         \<and> (\<exists>its. asArray (getField doc ''ideas'') = Some its \<and> parseIdeas its \<noteq> []))"
proof (intro conjI impI)
  from validateSnapshotPayload_edges [OF assms(1)]
  obtain pre where "validateSnapshotPayload doc = validateEdges es (collectedIds doc) pre"
    by blast
  moreover have "\<not> idsHas (collectedIds doc) (getField e ''from_idea_id'')
         \<or> \<not> idsHas (collectedIds doc) (getField e ''to_idea_id'')"
    using assms(3) idsHas_mono [OF collectedIds_declared] by blast
  with validateEdges_grows [of es "collectedIds doc" pre] assms(2)
  have "(if isRecord e then EdgeUnknownIdeaIds e else SnapshotEdgesInvalidItem)
          \<in> set (validateEdges es (collectedIds doc) pre)"
    by fastforce
  ultimately show "(if isRecord e then EdgeUnknownIdeaIds e else SnapshotEdgesInvalidItem)
           \<in> set (validateSnapshotPayload doc)" by simp
next
  assume a: "parseSelfSnapshot doc = Inr snap
         \<and> truthyStr (getString e ''from_idea_id'') \<and> truthyStr (getString e ''to_idea_id'')
         \<and> getString e ''type'' = Some ty \<and> ty \<in> set allowed"
  then have "edges snap = Some (parseEdges es)"
    using assms(1)
    by (auto simp: parseSelfSnapshot_def Let_def split: if_splits option.splits)
  moreover have "isRecord e"
    using a by (cases e) simp_all
  then have "\<lparr>from_idea_id = the (getString e ''from_idea_id''),
               to_idea_id = the (getString e ''to_idea_id''), edge_type = ty\<rparr> \<in> set (parseEdges es)"
    using parseEdges_keeps [OF assms(2)] a by blast
  ultimately show "edges snap \<noteq> None" and "\<lparr>from_idea_id = the (getString e ''from_idea_id''),
               to_idea_id = the (getString e ''to_idea_id''), edge_type = ty\<rparr> \<in> set (the (edges snap))"
    by simp_all
next
  show "(\<exists>s. parseSelfSnapshot doc = Inr s) \<longleftrightarrow>
         isRecord doc \<and> getString doc ''schema'' = Some ''afterlife.snapshot@1''
         \<and> truthyStr (getString doc ''self_id'')
         \<and> (\<exists>its. asArray (getField doc ''ideas'') = Some its \<and> parseIdeas its \<noteq> [])"
    by (auto simp: parseSelfSnapshot_def Let_def simp del: getString.simps split: if_splits option.splits)
qed

text \<open>
  The claim as stated fails on the lenient parser: the edge to the undeclared id
  \<open>vision\<close> is still in the parsed snapshot.
\<close>

theorem snapshot_edge_undeclared_ids_counterexample:
  "parseSelfSnapshot snapshot_dangling =
     Inr \<lparr>schema = ''afterlife.snapshot@1'', self_id = ''self-abc'', parent_snapshot_tx = None,
          ideas = [\<lparr>idea_id = ''mission'', tx_id = ''t1''\<rparr>],
          edges = Some [\<lparr>from_idea_id = ''mission'', to_idea_id = ''vision'', edge_type = ''supports''\<rparr>],
          snapshot_notes = None, created_at = None\<rparr>
   \<and> declaredIdeaIds snapshot_dangling = [''mission'']"
  by code_simp

text \<open>
  On the same document the strict validator reports the edge, and the parser succeeds.
\<close>

theorem snapshot_edge_undeclared_ids_witness:
  "asArray (getField snapshot_dangling ''edges'') = Some [edge_entry ''mission'' ''vision'' ''supports'']
   \<and> edge_entry ''mission'' ''vision'' ''supports'' \<in> set [edge_entry ''mission'' ''vision'' ''supports'']
   \<and> isRecord (edge_entry ''mission'' ''vision'' ''supports'')
   \<and> \<not> idsHas (declaredIdeaIds snapshot_dangling)
          (getField (edge_entry ''mission'' ''vision'' ''supports'') ''to_idea_id'')
   \<and> EdgeUnknownIdeaIds (edge_entry ''mission'' ''vision'' ''supports'')
        \<in> set (validateSnapshotPayload snapshot_dangling)
   \<and> (\<exists>s. parseSelfSnapshot snapshot_dangling = Inr s
          \<and> \<lparr>from_idea_id = ''mission'', to_idea_id = ''vision'', edge_type = ''supports''\<rparr>
               \<in> set (the (edges s)))"
proof -
  let ?e = "edge_entry ''mission'' ''vision'' ''supports''"
  have h1: "asArray (getField snapshot_dangling ''edges'') = Some [?e]"
    by code_simp
  have h2: "?e \<in> set [?e]"
    by simp
  have h3: "isRecord ?e"
    by code_simp
  have h4: "\<not> idsHas (declaredIdeaIds snapshot_dangling) (getField ?e ''to_idea_id'')"
    by code_simp
  have h5: "isRecord snapshot_dangling \<and> getString snapshot_dangling ''schema'' = Some ''afterlife.snapshot@1''
         \<and> truthyStr (getString snapshot_dangling ''self_id'')"
    by code_simp
  have h6: "asArray (getField snapshot_dangling ''ideas'') = Some [idea_entry ''mission'' ''t1'']
       \<and> parseIdeas [idea_entry ''mission'' ''t1''] \<noteq> []"
    by code_simp
  have h7: "truthyStr (getString ?e ''from_idea_id'') \<and> truthyStr (getString ?e ''to_idea_id'')
       \<and> getString ?e ''type'' = Some ''supports'' \<and> ''supports'' \<in> set allowed
       \<and> the (getString ?e ''from_idea_id'') = ''mission''
       \<and> the (getString ?e ''to_idea_id'') = ''vision''"
    by code_simp
  note t = snapshot_edge_undeclared_ids [OF h1 h2]
  have u: "\<not> idsHas (declaredIdeaIds snapshot_dangling) (getField ?e ''from_idea_id'')
         \<or> \<not> idsHas (declaredIdeaIds snapshot_dangling) (getField ?e ''to_idea_id'')"
    using h4 by blast
  have c1: "EdgeUnknownIdeaIds ?e \<in> set (validateSnapshotPayload snapshot_dangling)"
    using t [OF u] h3 by simp
  obtain s where s: "parseSelfSnapshot snapshot_dangling = Inr s"
    using t [OF u] h5 h6 by blast
  have "\<lparr>from_idea_id = the (getString ?e ''from_idea_id''),
         to_idea_id = the (getString ?e ''to_idea_id''), edge_type = ''supports''\<rparr>
          \<in> set (the (edges s))"
    using t [OF u, of s "''supports''"] s h7 by blast
  then have c2: "\<lparr>from_idea_id = ''mission'', to_idea_id = ''vision'', edge_type = ''supports''\<rparr>
          \<in> set (the (edges s))"
    using h7 by simp
  from h1 h2 h3 h4 c1 s c2 show ?thesis by blast
qed

section \<open>Properties of the gateway list\<close>

text \<open>
  Claim C10. In a store where \<open>DEFAULT_GATEWAYS\<close> is allocated and has its initial content
  (nothing in the module writes to it), \<open>getGateways\<close> returns a non-empty array at a
  reference that was not allocated before, so it is a new array and not
  \<open>DEFAULT_GATEWAYS\<close> itself; every array that existed before, \<open>DEFAULT_GATEWAYS\<close> among
  them, has the content it had. When the stored override is present and not empty after
  trimming, the result is the override (as trimmed) followed by the two default gateways;
  when \<open>localStorage\<close> is undefined, or the override is absent, empty or white space only,
  the result is a copy of the two defaults.
\<close>

theorem getGateways_fresh_nonempty:
  assumes "DEFAULT_GATEWAYS_ref < next_ref h"
    and "arrays h DEFAULT_GATEWAYS_ref = DEFAULT_GATEWAYS"
  shows "arrays (snd (getGateways ls h)) (fst (getGateways ls h)) \<noteq> []
    \<and> fst (getGateways ls h) \<noteq> DEFAULT_GATEWAYS_ref
    \<and> next_ref h \<le> fst (getGateways ls h)
    \<and> (\<forall>r. r < next_ref h \<longrightarrow> arrays (snd (getGateways ls h)) r = arrays h r)
    \<and> arrays (snd (getGateways ls h)) DEFAULT_GATEWAYS_ref = DEFAULT_GATEWAYS
    \<and> (\<forall>ov. storedOverride ls = Some ov \<and> trim ov \<noteq> []
          \<longrightarrow> arrays (snd (getGateways ls h)) (fst (getGateways ls h))
                = [trim ov, ''https://arweave.net'', ''https://ar-io.dev''])
    \<and> (storedOverride ls = None \<or> (\<exists>ov. storedOverride ls = Some ov \<and> trim ov = [])
          \<longrightarrow> arrays (snd (getGateways ls h)) (fst (getGateways ls h))
                = [''https://arweave.net'', ''https://ar-io.dev''])"
  using assms
  by (cases "storedOverride ls")
     (auto simp: getGateways_def alloc_def Let_def DEFAULT_GATEWAYS_def)

text \<open>
  In the store of the freshly loaded module: an override with spaces around it is trimmed
  and put first; an override of spaces only, and no \<open>localStorage\<close> at all, give the two
  defaults.
\<close>

theorem getGateways_fresh_nonempty_witness:
  "DEFAULT_GATEWAYS_ref < next_ref module_heap
   \<and> arrays module_heap DEFAULT_GATEWAYS_ref = DEFAULT_GATEWAYS
   \<and> storedOverride demo_storage = Some '' https://gw.example ''
   \<and> trim '' https://gw.example '' \<noteq> []
   \<and> arrays (snd (getGateways demo_storage module_heap)) (fst (getGateways demo_storage module_heap))
       = [''https://gw.example'', ''https://arweave.net'', ''https://ar-io.dev'']
   \<and> storedOverride blank_storage = Some ''   '' \<and> trim ''   '' = []
   \<and> arrays (snd (getGateways blank_storage module_heap)) (fst (getGateways blank_storage module_heap))
       = [''https://arweave.net'', ''https://ar-io.dev'']
   \<and> storedOverride None = None
   \<and> arrays (snd (getGateways None module_heap)) (fst (getGateways None module_heap))
       = [''https://arweave.net'', ''https://ar-io.dev'']
   \<and> fst (getGateways None module_heap) \<noteq> DEFAULT_GATEWAYS_ref"
proof -
  have h1: "DEFAULT_GATEWAYS_ref < next_ref module_heap"
    by (simp add: module_heap_def DEFAULT_GATEWAYS_ref_def)
  have h2: "arrays module_heap DEFAULT_GATEWAYS_ref = DEFAULT_GATEWAYS"
    by (simp add: module_heap_def)
  have t: "trim '' https://gw.example '' = ''https://gw.example''" "trim ''   '' = []"
    by code_simp+
  have s1: "storedOverride demo_storage = Some '' https://gw.example ''"
    and s2: "storedOverride blank_storage = Some ''   ''"
    and s3: "storedOverride None = None"
    by (simp_all add: storedOverride_def demo_storage_def blank_storage_def)
  note g = getGateways_fresh_nonempty [OF h1 h2]
  have c1: "arrays (snd (getGateways demo_storage module_heap)) (fst (getGateways demo_storage module_heap))
       = [''https://gw.example'', ''https://arweave.net'', ''https://ar-io.dev'']"
    using g [of demo_storage] s1 t by auto
  have c2: "arrays (snd (getGateways blank_storage module_heap)) (fst (getGateways blank_storage module_heap))
       = [''https://arweave.net'', ''https://ar-io.dev'']"
    using g [of blank_storage] s2 t by auto
  have c3: "arrays (snd (getGateways None module_heap)) (fst (getGateways None module_heap))
       = [''https://arweave.net'', ''https://ar-io.dev'']"
    and c4: "fst (getGateways None module_heap) \<noteq> DEFAULT_GATEWAYS_ref"
    using g [of None] s3 by auto
  from h1 h2 s1 s2 s3 t c1 c2 c3 c4 show ?thesis by simp
qed

section \<open>Properties of the query and fetch clients\<close>

lemma graphqlTry_calls: "snd (graphqlTry net q v e cs) = cs @ [e]"
  by (simp add: graphqlTry_def fetchWithTimeout_def)

lemma graphqlTry_result: "fst (graphqlTry net q v e cs) = fst (graphqlTry net q v e [])"
  by (simp add: graphqlTry_def fetchWithTimeout_def)

lemma graphqlTry_pair: "graphqlTry net q v e cs = (fst (graphqlTry net q v e []), cs @ [e])"
  by (metis graphqlTry_calls graphqlTry_result prod.collapse)

lemma graphqlRequest_loop_step:
  "graphqlRequest_loop net q v (e # rest) lastErr cs =
     (case fst (graphqlTry net q v e []) of
        Inr d \<Rightarrow> (Inr d, cs @ [e])
      | Inl err \<Rightarrow> graphqlRequest_loop net q v rest (Some err) (cs @ [e]))"
  by (subst graphqlRequest_loop.simps, subst graphqlTry_pair) (simp split: sum.splits)

lemma graphqlRequest_loop_all_fail:
  "\<forall>e\<in>set eps. isl (fst (graphqlTry net q v e [])) \<Longrightarrow>
     graphqlRequest_loop net q v eps lastErr cs =
       (Inl (if eps = [] then (case lastErr of Some e \<Rightarrow> e | None \<Rightarrow> Failed ''GraphQL request failed'')
             else projl (fst (graphqlTry net q v (last eps) []))), cs @ eps)"
proof (induction eps arbitrary: lastErr cs)
  case Nil
  then show ?case by simp
next
  case (Cons e rest)
  then obtain err where err: "fst (graphqlTry net q v e []) = Inl err"
    by (cases "fst (graphqlTry net q v e [])") auto
  have "graphqlRequest_loop net q v (e # rest) lastErr cs
          = graphqlRequest_loop net q v rest (Some err) (cs @ [e])"
    by (simp only: graphqlRequest_loop_step err sum.case)
  also have "\<dots> = (Inl (if rest = [] then err
             else projl (fst (graphqlTry net q v (last rest) []))), (cs @ [e]) @ rest)"
    using Cons.IH [of "Some err" "cs @ [e]"] Cons.prems by simp
  finally show ?case using err by simp
qed

lemma graphqlRequest_loop_first_success:
  "\<forall>x\<in>set pre. isl (fst (graphqlTry net q v x [])) \<Longrightarrow> fst (graphqlTry net q v e []) = Inr d \<Longrightarrow>
     graphqlRequest_loop net q v (pre @ e # post) lastErr cs = (Inr d, cs @ pre @ [e])"
proof (induction pre arbitrary: lastErr cs)
  case Nil
  then show ?case by (simp only: append_Nil graphqlRequest_loop_step sum.case append_Nil2)
next
  case (Cons x pre)
  then obtain err where err: "fst (graphqlTry net q v x []) = Inl err"
    by (cases "fst (graphqlTry net q v x [])") auto
  have "graphqlRequest_loop net q v ((x # pre) @ e # post) lastErr cs
          = graphqlRequest_loop net q v (pre @ e # post) (Some err) (cs @ [x])"
    by (simp only: append_Cons graphqlRequest_loop_step err sum.case)
  also have "\<dots> = (Inr d, (cs @ [x]) @ pre @ [e])"
    using Cons.IH [of "Some err" "cs @ [x]"] Cons.prems by simp
  finally show ?case by simp
qed

text \<open>
  Claim C7. When the attempt fails at every endpoint of the list, \<open>graphqlRequest\<close> fetches
  each endpoint once, in list order (the calls it adds are the list itself), and then
  raises. With at least one endpoint the error raised is the error of the last attempt;
  with none, no attempt is made and the error is "GraphQL request failed".
\<close>

theorem graphql_fallback_exhaustion:
  assumes "\<forall>e\<in>set endpoints. isl (fst (graphqlTry net query variables e []))"
  shows "snd (graphqlRequest net query variables endpoints calls) = calls @ endpoints
    \<and> isl (fst (graphqlRequest net query variables endpoints calls))
    \<and> (endpoints \<noteq> [] \<longrightarrow>
         fst (graphqlRequest net query variables endpoints calls)
           = fst (graphqlTry net query variables (last endpoints) (calls @ butlast endpoints)))
    \<and> (endpoints = [] \<longrightarrow>
         fst (graphqlRequest net query variables endpoints calls) = Inl (Failed ''GraphQL request failed''))"
proof -
  have r: "graphqlRequest net query variables endpoints calls =
       (Inl (if endpoints = [] then Failed ''GraphQL request failed''
             else projl (fst (graphqlTry net query variables (last endpoints) []))), calls @ endpoints)"
    unfolding graphqlRequest_def
    using graphqlRequest_loop_all_fail [OF assms, of None calls] by simp
  have "endpoints \<noteq> [] \<Longrightarrow> isl (fst (graphqlTry net query variables (last endpoints) []))"
    using assms by simp
  then have l: "endpoints \<noteq> [] \<Longrightarrow>
      Inl (projl (fst (graphqlTry net query variables (last endpoints) [])))
        = fst (graphqlTry net query variables (last endpoints) (calls @ butlast endpoints))"
    using graphqlTry_result [of net query variables "last endpoints" "calls @ butlast endpoints"]
    by simp
  show ?thesis
  proof (cases "endpoints = []")
    case True
    then show ?thesis using r by simp
  next
    case False
    from l [OF False] have "isl (fst (graphqlTry net query variables (last endpoints) (calls @ butlast endpoints)))"
      by (metis isl_def)
    then show ?thesis using False r l by simp
  qed
qed

text \<open>
  The first endpoint answers 502 and the second declares the error "timeout": two calls,
  and the error raised is the one of the second attempt.
\<close>

theorem graphql_fallback_exhaustion_witness:
  "isl (fst (graphqlTry failing_graphql_net ''q'' JNull ''https://arweave.net/graphql'' []))
   \<and> isl (fst (graphqlTry failing_graphql_net ''q'' JNull ''https://ar-io.dev/graphql'' []))
   \<and> graphqlRequest failing_graphql_net ''q'' JNull DEFAULT_GRAPHQL_ENDPOINTS []
       = (Inl (GraphqlErrors [JObj [(''message'', JStr ''timeout'')]]),
          [''https://arweave.net/graphql'', ''https://ar-io.dev/graphql''])"
proof -
  have h: "\<forall>e\<in>set DEFAULT_GRAPHQL_ENDPOINTS. isl (fst (graphqlTry failing_graphql_net ''q'' JNull e []))"
    by code_simp
  have l: "fst (graphqlTry failing_graphql_net ''q'' JNull (last DEFAULT_GRAPHQL_ENDPOINTS) ([] @ butlast DEFAULT_GRAPHQL_ENDPOINTS))
             = Inl (GraphqlErrors [JObj [(''message'', JStr ''timeout'')]])"
    by code_simp
  have ne: "DEFAULT_GRAPHQL_ENDPOINTS \<noteq> []"
    by (simp add: DEFAULT_GRAPHQL_ENDPOINTS_def)
  from graphql_fallback_exhaustion [OF h, of "[]"] l ne
  have "graphqlRequest failing_graphql_net ''q'' JNull DEFAULT_GRAPHQL_ENDPOINTS []
       = (Inl (GraphqlErrors [JObj [(''message'', JStr ''timeout'')]]), DEFAULT_GRAPHQL_ENDPOINTS)"
    by (metis append_Nil prod.collapse)
  then show ?thesis using h by (simp add: DEFAULT_GRAPHQL_ENDPOINTS_def)
qed

lemma fetchTxJsonTry_pair:
  "fetchTxJsonTry net txId gw cs = (fst (fetchTxJsonTry net txId gw []), cs @ [stripSlash gw @ ''/'' @ txId])"
  by (simp add: fetchTxJsonTry_def fetchWithTimeout_def Let_def)

lemma fetchTxJson_loop_step:
  "fetchTxJson_loop net txId (gw # rest) lastErr cs =
     (case fst (fetchTxJsonTry net txId gw []) of
        Inr j \<Rightarrow> (Inr j, cs @ [stripSlash gw @ ''/'' @ txId])
      | Inl err \<Rightarrow> fetchTxJson_loop net txId rest (Some err) (cs @ [stripSlash gw @ ''/'' @ txId]))"
  by (subst fetchTxJson_loop.simps, subst fetchTxJsonTry_pair) (simp split: sum.splits)

lemma fetchTxJson_loop_first_success:
  "\<forall>x\<in>set pre. isl (fst (fetchTxJsonTry net txId x [])) \<Longrightarrow> fst (fetchTxJsonTry net txId gw []) = Inr j \<Longrightarrow>
     fetchTxJson_loop net txId (pre @ gw # post) lastErr cs
       = (Inr j, cs @ map (\<lambda>g. stripSlash g @ ''/'' @ txId) (pre @ [gw]))"
proof (induction pre arbitrary: lastErr cs)
  case Nil
  then show ?case by (simp add: fetchTxJson_loop_step del: fetchTxJson_loop.simps)
next
  case (Cons x pre)
  then obtain err where err: "fst (fetchTxJsonTry net txId x []) = Inl err"
    by (cases "fst (fetchTxJsonTry net txId x [])") auto
  have "fetchTxJson_loop net txId ((x # pre) @ gw # post) lastErr cs
          = fetchTxJson_loop net txId (pre @ gw # post) (Some err) (cs @ [stripSlash x @ ''/'' @ txId])"
    by (simp only: append_Cons fetchTxJson_loop_step err sum.case)
  also have "\<dots> = (Inr j, (cs @ [stripSlash x @ ''/'' @ txId]) @ map (\<lambda>g. stripSlash g @ ''/'' @ txId) (pre @ [gw]))"
    using Cons.IH [of "Some err" "cs @ [stripSlash x @ ''/'' @ txId]"] Cons.prems by simp
  finally show ?case by simp
qed

lemma graphqlTry_well_formed:
  assumes "net e (POST q v) = Responded status (Some json)" "response_ok status" "json \<noteq> JNull"
    "thrownByErrors (getField json ''errors'') = None" "getField json ''data'' = Some (JObj d)"
  shows "fst (graphqlTry net q v e cs) = Inr (JObj d)"
  using assms by (simp add: graphqlTry_def fetchWithTimeout_def)

text \<open>
  Claim C8. When the attempts at the endpoints \<open>pre\<close> fail and the attempt at the next
  endpoint succeeds, the client returns that endpoint's data after exactly
  \<open>length pre + 1\<close> calls, in list order, and never reaches the endpoints after it; with one
  endpoint in \<open>pre\<close> that is two calls. This holds for \<open>graphqlRequest\<close> and for
  \<open>fetchTxJson\<close>. An attempt whose response is successful, without declared errors and with
  an object as \<open>data\<close> succeeds whatever that object holds, so a result with zero records
  is a success.
\<close>

theorem fallback_short_circuit:
  "((\<forall>x\<in>set pre. isl (fst (graphqlTry net q v x []))) \<and> fst (graphqlTry net q v e []) = Inr d
      \<longrightarrow> graphqlRequest net q v (pre @ e # post) calls = (Inr d, calls @ pre @ [e]))
   \<and> ((\<forall>g\<in>set gpre. isl (fst (fetchTxJsonTry net txId g []))) \<and> fst (fetchTxJsonTry net txId gw []) = Inr j
      \<longrightarrow> fetchTxJson net txId (gpre @ gw # gpost) calls
            = (Inr j, calls @ map (\<lambda>g. stripSlash g @ ''/'' @ txId) (gpre @ [gw])))
   \<and> (net e (POST q v) = Responded status (Some json) \<and> response_ok status \<and> json \<noteq> JNull
        \<and> thrownByErrors (getField json ''errors'') = None \<and> getField json ''data'' = Some (JObj recs)
      \<longrightarrow> fst (graphqlTry net q v e calls) = Inr (JObj recs))"
  unfolding graphqlRequest_def fetchTxJson_def
  using graphqlRequest_loop_first_success [of pre net q v e d post None calls]
    fetchTxJson_loop_first_success [of gpre net txId gw j gpost None calls]
    graphqlTry_well_formed [of net e q v status json recs calls]
  by blast

text \<open>
  The test of \<open>arweave.test.ts\<close>: \<open>gw1\<close> throws, \<open>gw2\<close> answers \<open>{ok: true}\<close>, and
  \<open>fetchTxJson\<close> returns it after two calls. For the query client: the first endpoint
  answers 502, the second a result with no edges, which is returned.
\<close>

theorem fallback_short_circuit_witness:
  "isl (fst (fetchTxJsonTry test_net ''TX'' ''https://gw1'' []))
   \<and> fst (fetchTxJsonTry test_net ''TX'' ''https://gw2'' []) = Inr (JObj [(''ok'', JBool True)])
   \<and> fetchTxJson test_net ''TX'' [''https://gw1'', ''https://gw2''] []
       = (Inr (JObj [(''ok'', JBool True)]), [''https://gw1/TX'', ''https://gw2/TX''])
   \<and> isl (fst (graphqlTry second_graphql_net ''q'' JNull ''https://arweave.net/graphql'' []))
   \<and> graphqlRequest second_graphql_net ''q'' JNull [''https://arweave.net/graphql'', ''https://ar-io.dev/graphql''] []
       = (Inr empty_result, [''https://arweave.net/graphql'', ''https://ar-io.dev/graphql''])"
proof -
  note t = fallback_short_circuit
  have g1: "\<forall>g\<in>set [''https://gw1'']. isl (fst (fetchTxJsonTry test_net ''TX'' g []))"
    by code_simp
  have g2: "fst (fetchTxJsonTry test_net ''TX'' ''https://gw2'' []) = Inr (JObj [(''ok'', JBool True)])"
    by code_simp
  have c1: "fetchTxJson test_net ''TX'' ([''https://gw1''] @ ''https://gw2'' # []) []
       = (Inr (JObj [(''ok'', JBool True)]),
          [] @ map (\<lambda>g. stripSlash g @ ''/'' @ ''TX'') ([''https://gw1''] @ [''https://gw2'']))"
    using t [where gpre = "[''https://gw1'']" and net = test_net and txId = "''TX''"
        and gw = "''https://gw2''" and gpost = "[]" and calls = "[]"
        and j = "JObj [(''ok'', JBool True)]"] g1 g2
    by blast
  have u: "map (\<lambda>g. stripSlash g @ ''/'' @ ''TX'') ([''https://gw1''] @ [''https://gw2''])
             = [''https://gw1/TX'', ''https://gw2/TX'']"
    by code_simp
  have e1: "\<forall>x\<in>set [''https://arweave.net/graphql'']. isl (fst (graphqlTry second_graphql_net ''q'' JNull x []))"
    by code_simp
  have r: "second_graphql_net ''https://ar-io.dev/graphql'' (POST ''q'' JNull)
             = Responded 200 (Some (JObj [(''data'', empty_result)]))
           \<and> response_ok 200 \<and> JObj [(''data'', empty_result)] \<noteq> JNull
           \<and> thrownByErrors (getField (JObj [(''data'', empty_result)]) ''errors'') = None
           \<and> getField (JObj [(''data'', empty_result)]) ''data''
               = Some (JObj [(''transactions'', JObj [(''edges'', JArr [])])])"
    by code_simp
  have e2: "fst (graphqlTry second_graphql_net ''q'' JNull ''https://ar-io.dev/graphql'' []) = Inr empty_result"
    using t [where net = second_graphql_net and e = "''https://ar-io.dev/graphql''" and q = "''q''"
        and v = JNull and calls = "[]" and status = 200 and json = "JObj [(''data'', empty_result)]"
        and recs = "[(''transactions'', JObj [(''edges'', JArr [])])]"] r
    by (simp add: empty_result_def)
  have c2: "graphqlRequest second_graphql_net ''q'' JNull
              ([''https://arweave.net/graphql''] @ ''https://ar-io.dev/graphql'' # []) []
       = (Inr empty_result, [] @ [''https://arweave.net/graphql''] @ [''https://ar-io.dev/graphql''])"
    using t [where pre = "[''https://arweave.net/graphql'']" and net = second_graphql_net
        and q = "''q''" and v = JNull and e = "''https://ar-io.dev/graphql''" and d = empty_result
        and post = "[]" and calls = "[]"] e1 e2
    by blast
  from g1 g2 c1 u e1 c2 show ?thesis by simp
qed

lemma fetchJsonByTxIdTry_not_json:
  "net (g @ ''/'' @ jsToString tx) GET = Responded status None \<Longrightarrow> response_ok status \<Longrightarrow>
     fetchJsonByTxIdTry net tx g = Inl BodyNotJson"
  by (simp add: fetchJsonByTxIdTry_def Let_def)

lemma fetchTxJsonTry_not_json:
  "net (stripSlash gw @ ''/'' @ txId) GET = Responded status None \<Longrightarrow> response_ok status \<Longrightarrow>
     fst (fetchTxJsonTry net txId gw cs) = Inl BodyNotJson"
  by (simp add: fetchTxJsonTry_def fetchWithTimeout_def Let_def)

lemma fetchTxJson_loop_all_fail:
  "\<forall>g\<in>set gws. isl (fst (fetchTxJsonTry net txId g [])) \<Longrightarrow>
     fetchTxJson_loop net txId gws lastErr cs =
       (Inl (if gws = [] then (case lastErr of Some e \<Rightarrow> e | None \<Rightarrow> Failed ''Failed to fetch tx JSON'')
             else projl (fst (fetchTxJsonTry net txId (last gws) []))),
        cs @ map (\<lambda>g. stripSlash g @ ''/'' @ txId) gws)"
proof (induction gws arbitrary: lastErr cs)
  case Nil
  then show ?case by simp
next
  case (Cons g rest)
  then obtain err where err: "fst (fetchTxJsonTry net txId g []) = Inl err"
    by (cases "fst (fetchTxJsonTry net txId g [])") auto
  have "fetchTxJson_loop net txId (g # rest) lastErr cs
          = fetchTxJson_loop net txId rest (Some err) (cs @ [stripSlash g @ ''/'' @ txId])"
    by (simp only: fetchTxJson_loop_step err sum.case)
  also have "\<dots> = (Inl (if rest = [] then err
             else projl (fst (fetchTxJsonTry net txId (last rest) []))),
          (cs @ [stripSlash g @ ''/'' @ txId]) @ map (\<lambda>g. stripSlash g @ ''/'' @ txId) rest)"
    using Cons.IH [of "Some err" "cs @ [stripSlash g @ ''/'' @ txId]"] Cons.prems by simp
  finally show ?case using err by simp
qed

lemma fetchTxJson_loop_raises_only:
  "isl (fst (fetchTxJson_loop net txId gws lastErr cs)) \<Longrightarrow>
     \<forall>g\<in>set gws. isl (fst (fetchTxJsonTry net txId g []))"
proof (induction gws arbitrary: lastErr cs)
  case Nil
  then show ?case by simp
next
  case (Cons g rest)
  show ?case
  proof (cases "fst (fetchTxJsonTry net txId g [])")
    case (Inr j)
    then have "fetchTxJson_loop net txId (g # rest) lastErr cs = (Inr j, cs @ [stripSlash g @ ''/'' @ txId])"
      by (simp only: fetchTxJson_loop_step sum.case)
    then show ?thesis using Cons.prems by simp
  next
    case (Inl err)
    then have "fetchTxJson_loop net txId (g # rest) lastErr cs
          = fetchTxJson_loop net txId rest (Some err) (cs @ [stripSlash g @ ''/'' @ txId])"
      by (simp only: fetchTxJson_loop_step sum.case)
    then have "isl (fst (fetchTxJson_loop net txId rest (Some err) (cs @ [stripSlash g @ ''/'' @ txId])))"
      using Cons.prems by simp
    from Cons.IH [OF this] Inl show ?thesis by simp
  qed
qed

lemma fetchTxJsonTry_result:
  "fst (fetchTxJsonTry net txId gw cs) = fst (fetchTxJsonTry net txId gw [])"
  by (simp add: fetchTxJsonTry_def fetchWithTimeout_def Let_def)

lemma fetchJsonByTxId_two:
  "fetchJsonByTxId net tx =
     (case fetchJsonByTxIdTry net tx ''https://arweave.net'' of
        Inr v \<Rightarrow> Inr v
      | Inl e \<Rightarrow> fetchJsonByTxIdTry net tx ''https://ar-io.dev'')"
  unfolding fetchJsonByTxId_def GATEWAYS_def
  by (cases "fetchJsonByTxIdTry net tx ''https://arweave.net''";
      cases "fetchJsonByTxIdTry net tx ''https://ar-io.dev''") simp_all

text \<open>
  Claim C4, as amended. A JSON parse failure after a gateway has answered with a success
  status is one more failed attempt, like a non-success status or a network error: the
  attempt at that gateway ends with the parse error, and the loop goes on to the next
  gateway. For \<open>fetchTxJson\<close>, over every gateway list: when the attempts at the gateways
  before one fail (in any of the three ways) and the attempt at that one gives JSON, that
  JSON is returned after one call to each of them, in order; when the attempt fails at
  every gateway, one call is made to each and the error raised is the error of the attempt
  at the last gateway (the generic error when the list is empty); and the fetch raises only
  when the attempt has failed at every gateway. \<open>fetchJsonByTxId\<close> of the verify script does
  the same with its two gateways: a parse failure is a failed attempt, and the result is
  the JSON of the first gateway when that attempt succeeds, otherwise the result of the
  attempt at the second.
\<close>

theorem parse_failure_falls_through:
  "(net (stripSlash gw @ ''/'' @ txId) GET = Responded status None \<and> response_ok status
      \<longrightarrow> fst (fetchTxJsonTry net txId gw cs) = Inl BodyNotJson)
   \<and> ((\<forall>g\<in>set pre. isl (fst (fetchTxJsonTry net txId g []))) \<and> fst (fetchTxJsonTry net txId gw []) = Inr j
      \<longrightarrow> fetchTxJson net txId (pre @ gw # post) calls
            = (Inr j, calls @ map (\<lambda>g. stripSlash g @ ''/'' @ txId) (pre @ [gw])))
   \<and> ((\<forall>g\<in>set gws. isl (fst (fetchTxJsonTry net txId g [])))
      \<longrightarrow> fetchTxJson net txId gws calls
            = (if gws = [] then Inl (Failed ''Failed to fetch tx JSON'')
               else fst (fetchTxJsonTry net txId (last gws)
                           (calls @ map (\<lambda>g. stripSlash g @ ''/'' @ txId) (butlast gws))),
               calls @ map (\<lambda>g. stripSlash g @ ''/'' @ txId) gws))
   \<and> (isl (fst (fetchTxJson net txId gws calls))
      \<longrightarrow> (\<forall>g\<in>set gws. isl (fst (fetchTxJsonTry net txId g []))))
   \<and> (net (g @ ''/'' @ jsToString tx) GET = Responded status None \<and> response_ok status
      \<longrightarrow> fetchJsonByTxIdTry net tx g = Inl BodyNotJson)
   \<and> fetchJsonByTxId net tx =
       (case fetchJsonByTxIdTry net tx ''https://arweave.net'' of
          Inr v \<Rightarrow> Inr v
        | Inl e \<Rightarrow> fetchJsonByTxIdTry net tx ''https://ar-io.dev'')"
proof (intro conjI impI)
  assume "net (stripSlash gw @ ''/'' @ txId) GET = Responded status None \<and> response_ok status"
  then show "fst (fetchTxJsonTry net txId gw cs) = Inl BodyNotJson"
    by (simp add: fetchTxJsonTry_not_json)
next
  assume "(\<forall>g\<in>set pre. isl (fst (fetchTxJsonTry net txId g []))) \<and> fst (fetchTxJsonTry net txId gw []) = Inr j"
  then show "fetchTxJson net txId (pre @ gw # post) calls
            = (Inr j, calls @ map (\<lambda>g. stripSlash g @ ''/'' @ txId) (pre @ [gw]))"
    unfolding fetchTxJson_def
    using fetchTxJson_loop_first_success [of pre net txId gw j post None calls] by blast
next
  assume a: "\<forall>g\<in>set gws. isl (fst (fetchTxJsonTry net txId g []))"
  show "fetchTxJson net txId gws calls
            = (if gws = [] then Inl (Failed ''Failed to fetch tx JSON'')
               else fst (fetchTxJsonTry net txId (last gws)
                           (calls @ map (\<lambda>g. stripSlash g @ ''/'' @ txId) (butlast gws))),
               calls @ map (\<lambda>g. stripSlash g @ ''/'' @ txId) gws)"
  proof (cases "gws = []")
    case True
    then show ?thesis by (simp add: fetchTxJson_def)
  next
    case False
    then have "isl (fst (fetchTxJsonTry net txId (last gws) []))"
      using a by simp
    then have "Inl (projl (fst (fetchTxJsonTry net txId (last gws) [])))
                 = fst (fetchTxJsonTry net txId (last gws)
                           (calls @ map (\<lambda>g. stripSlash g @ ''/'' @ txId) (butlast gws)))"
      using fetchTxJsonTry_result [of net txId "last gws"
              "calls @ map (\<lambda>g. stripSlash g @ ''/'' @ txId) (butlast gws)"]
      by simp
    then show ?thesis
      unfolding fetchTxJson_def
      using fetchTxJson_loop_all_fail [OF a, of None calls] False by simp
  qed
next
  assume "isl (fst (fetchTxJson net txId gws calls))"
  then show "\<forall>g\<in>set gws. isl (fst (fetchTxJsonTry net txId g []))"
    unfolding fetchTxJson_def by (rule fetchTxJson_loop_raises_only)
next
  assume "net (g @ ''/'' @ jsToString tx) GET = Responded status None \<and> response_ok status"
  then show "fetchJsonByTxIdTry net tx g = Inl BodyNotJson"
    by (simp add: fetchJsonByTxIdTry_not_json)
next
  show "fetchJsonByTxId net tx =
       (case fetchJsonByTxIdTry net tx ''https://arweave.net'' of
          Inr v \<Rightarrow> Inr v
        | Inl e \<Rightarrow> fetchJsonByTxIdTry net tx ''https://ar-io.dev'')"
    by (rule fetchJsonByTxId_two)
qed

text \<open>
  The claim as stated (the fetch raises at once and the body is not retried) fails: \<open>gw1\<close>
  answers 200 with a body that is not JSON, and \<open>fetchTxJson\<close> returns the JSON of \<open>gw2\<close>
  after calling both.
\<close>

theorem parse_failure_counterexample:
  "garbled_net (stripSlash ''https://gw1'' @ ''/'' @ ''TX'') GET = Responded 200 None
   \<and> response_ok 200
   \<and> fetchTxJson garbled_net ''TX'' [''https://gw1'', ''https://gw2''] []
       = (Inr (JObj [(''ok'', JBool True)]), [''https://gw1/TX'', ''https://gw2/TX''])
   \<and> garbled_first_gateway (''https://arweave.net'' @ ''/'' @ jsToString (JStr ''TX'')) GET
       = Responded 200 None
   \<and> fetchJsonByTxId garbled_first_gateway (JStr ''TX'') = Inr (JObj [(''ok'', JBool True)])"
  by code_simp

text \<open>
  Witnesses of the amended claim: \<open>gw1\<close> answers 200 with a body that is not JSON; when
  \<open>gw2\<close> gives JSON, that JSON is returned and \<open>gw3\<close> is not called; when \<open>gw2\<close> answers
  503, the error raised is that of \<open>gw2\<close>, not the parse error of \<open>gw1\<close>.
\<close>

theorem parse_failure_falls_through_witness:
  "garbled_then_down_net (stripSlash ''https://gw1'' @ ''/'' @ ''TX'') GET = Responded 200 None
   \<and> response_ok 200
   \<and> fst (fetchTxJsonTry garbled_then_down_net ''TX'' ''https://gw1'' []) = Inl BodyNotJson
   \<and> fst (fetchTxJsonTry garbled_net ''TX'' ''https://gw1'' []) = Inl BodyNotJson
   \<and> fst (fetchTxJsonTry garbled_net ''TX'' ''https://gw2'' []) = Inr (JObj [(''ok'', JBool True)])
   \<and> fetchTxJson garbled_net ''TX'' [''https://gw1'', ''https://gw2'', ''https://gw3''] []
       = (Inr (JObj [(''ok'', JBool True)]), [''https://gw1/TX'', ''https://gw2/TX''])
   \<and> fst (fetchTxJsonTry garbled_then_down_net ''TX'' ''https://gw2'' [])
       = Inl (HttpStatus ''Gateway https://gw2'' 503)
   \<and> fetchTxJson garbled_then_down_net ''TX'' [''https://gw1'', ''https://gw2''] []
       = (Inl (HttpStatus ''Gateway https://gw2'' 503), [''https://gw1/TX'', ''https://gw2/TX''])
   \<and> isl (fst (fetchTxJson garbled_then_down_net ''TX'' [''https://gw1'', ''https://gw2''] []))
   \<and> garbled_first_gateway (''https://arweave.net'' @ ''/'' @ jsToString (JStr ''TX'')) GET
       = Responded 200 None
   \<and> fetchJsonByTxIdTry garbled_first_gateway (JStr ''TX'') ''https://arweave.net'' = Inl BodyNotJson
   \<and> fetchJsonByTxId garbled_first_gateway (JStr ''TX'') = Inr (JObj [(''ok'', JBool True)])"
proof -
  have a1: "garbled_then_down_net (stripSlash ''https://gw1'' @ ''/'' @ ''TX'') GET = Responded 200 None
              \<and> response_ok 200"
    by code_simp
  have a2: "garbled_net (stripSlash ''https://gw1'' @ ''/'' @ ''TX'') GET = Responded 200 None
              \<and> response_ok 200"
    by code_simp
  have c1: "fst (fetchTxJsonTry garbled_then_down_net ''TX'' ''https://gw1'' []) = Inl BodyNotJson"
    using parse_failure_falls_through [where net = garbled_then_down_net and gw = "''https://gw1''"
      and txId = "''TX''" and status = 200 and cs = "[]"] a1 by blast
  have c2: "fst (fetchTxJsonTry garbled_net ''TX'' ''https://gw1'' []) = Inl BodyNotJson"
    using parse_failure_falls_through [where net = garbled_net and gw = "''https://gw1''"
      and txId = "''TX''" and status = 200 and cs = "[]"] a2 by blast
  have b1: "fst (fetchTxJsonTry garbled_net ''TX'' ''https://gw2'' []) = Inr (JObj [(''ok'', JBool True)])"
    by code_simp
  have "\<forall>g\<in>set [''https://gw1'']. isl (fst (fetchTxJsonTry garbled_net ''TX'' g []))"
    using c2 by simp
  then have "fetchTxJson garbled_net ''TX'' ([''https://gw1''] @ ''https://gw2'' # [''https://gw3'']) []
       = (Inr (JObj [(''ok'', JBool True)]),
          [] @ map (\<lambda>g. stripSlash g @ ''/'' @ ''TX'') ([''https://gw1''] @ [''https://gw2'']))"
    using parse_failure_falls_through [where net = garbled_net and pre = "[''https://gw1'']"
      and gw = "''https://gw2''" and post = "[''https://gw3'']" and txId = "''TX''"
      and j = "JObj [(''ok'', JBool True)]" and calls = "[]"] b1 by blast
  moreover have u: "map (\<lambda>g. stripSlash g @ ''/'' @ ''TX'') [''https://gw1'', ''https://gw2'']
                 = [''https://gw1/TX'', ''https://gw2/TX'']"
    by code_simp
  ultimately have c3: "fetchTxJson garbled_net ''TX'' [''https://gw1'', ''https://gw2'', ''https://gw3''] []
       = (Inr (JObj [(''ok'', JBool True)]), [''https://gw1/TX'', ''https://gw2/TX''])"
    by simp
  have d1: "fst (fetchTxJsonTry garbled_then_down_net ''TX'' ''https://gw2'' [])
       = Inl (HttpStatus ''Gateway https://gw2'' 503)"
    by code_simp
  have d2: "fst (fetchTxJsonTry garbled_then_down_net ''TX'' ''https://gw2''
                   ([] @ map (\<lambda>g. stripSlash g @ ''/'' @ ''TX'') (butlast [''https://gw1'', ''https://gw2''])))
       = Inl (HttpStatus ''Gateway https://gw2'' 503)"
    by code_simp
  have all: "\<forall>g\<in>set [''https://gw1'', ''https://gw2''].
               isl (fst (fetchTxJsonTry garbled_then_down_net ''TX'' g []))"
    using c1 d1 by simp
  have "fetchTxJson garbled_then_down_net ''TX'' [''https://gw1'', ''https://gw2''] []
            = (if [''https://gw1'', ''https://gw2''] = [] then Inl (Failed ''Failed to fetch tx JSON'')
               else fst (fetchTxJsonTry garbled_then_down_net ''TX'' (last [''https://gw1'', ''https://gw2''])
                           ([] @ map (\<lambda>g. stripSlash g @ ''/'' @ ''TX'') (butlast [''https://gw1'', ''https://gw2'']))),
               [] @ map (\<lambda>g. stripSlash g @ ''/'' @ ''TX'') [''https://gw1'', ''https://gw2''])"
    using parse_failure_falls_through [where net = garbled_then_down_net
      and gws = "[''https://gw1'', ''https://gw2'']" and txId = "''TX''" and calls = "[]"] all
    by blast
  then have c4: "fetchTxJson garbled_then_down_net ''TX'' [''https://gw1'', ''https://gw2''] []
       = (Inl (HttpStatus ''Gateway https://gw2'' 503), [''https://gw1/TX'', ''https://gw2/TX''])"
    using d2 u by simp
  then have c5: "isl (fst (fetchTxJson garbled_then_down_net ''TX'' [''https://gw1'', ''https://gw2''] []))"
    by simp
  have e1: "garbled_first_gateway (''https://arweave.net'' @ ''/'' @ jsToString (JStr ''TX'')) GET
       = Responded 200 None \<and> response_ok 200"
    by code_simp
  have c6: "fetchJsonByTxIdTry garbled_first_gateway (JStr ''TX'') ''https://arweave.net'' = Inl BodyNotJson"
    using parse_failure_falls_through [where net = garbled_first_gateway and g = "''https://arweave.net''"
      and tx = "JStr ''TX''" and status = 200] e1 by blast
  have f1: "fetchJsonByTxIdTry garbled_first_gateway (JStr ''TX'') ''https://ar-io.dev''
              = Inr (JObj [(''ok'', JBool True)])"
    by code_simp
  have "fetchJsonByTxId garbled_first_gateway (JStr ''TX'') =
       (case fetchJsonByTxIdTry garbled_first_gateway (JStr ''TX'') ''https://arweave.net'' of
          Inr v \<Rightarrow> Inr v
        | Inl e \<Rightarrow> fetchJsonByTxIdTry garbled_first_gateway (JStr ''TX'') ''https://ar-io.dev'')"
    using parse_failure_falls_through [where net = garbled_first_gateway and tx = "JStr ''TX''"]
    by blast
  then have c7: "fetchJsonByTxId garbled_first_gateway (JStr ''TX'') = Inr (JObj [(''ok'', JBool True)])"
    using c6 f1 by simp
  from a1 c1 c2 b1 c3 d1 c4 c5 e1 c6 c7 show ?thesis by blast
qed

section \<open>Properties of the chain verifier\<close>

text \<open>
  What the idea loop of \<open>verifySelf\<close> does with one idea depends on how \<open>verifyTx\<close> ends.
  When \<open>verifyTx\<close> returns a report for every idea (a failing one included, such as the
  report "Tx not found" for a transaction that the metadata query does not find), the loop
  goes through all ideas and \<open>verifySelf\<close> returns one idea report for each, in order, with
  that idea's own \<open>ok\<close>, errors and warnings. When \<open>verifyTx\<close> throws for an idea (no
  gateway gives its payload, or the query service fails), the loop ends there and
  \<open>verifySelf\<close> throws the same error.
\<close>

lemma verifyTx_not_found:
  "getTxMeta net [t] = Inr [] \<Longrightarrow>
     verifyTx net t = Inr \<lparr>tr_ok = False, tr_tx_id = None, tr_entity = None, tr_tags = None,
                           tr_errors = [TxNotFound t], tr_warnings = []\<rparr>"
  by (simp add: verifyTx_def)

lemma verifyTx_fetch_raises:
  "getTxMeta net [t] = Inr (Some m # ms) \<Longrightarrow> truthy (Some m) \<Longrightarrow>
   vTagsToMap (getField m ''tags'') = Inr tgs \<Longrightarrow> fetchJsonByTxId net t = Inl e \<Longrightarrow>
     verifyTx net t = Inl e"
  by (simp add: verifyTx_def)

lemma verifyIdeas_skip:
  "\<not> truthy (getField ref ''tx_id'') \<Longrightarrow>
     verifyIdeas net (ref # rest) errs warns reps = verifyIdeas net rest errs warns reps"
  by simp

lemma verifyIdeas_raises:
  "truthy (getField ref ''tx_id'') \<Longrightarrow> verifyTx net (the (getField ref ''tx_id'')) = Inl e \<Longrightarrow>
     verifyIdeas net (ref # rest) errs warns reps = Inl e"
  by simp

lemma verifyIdeas_reports:
  assumes "\<forall>ref\<in>set refs. truthy (getField ref ''tx_id'') \<longrightarrow>
             (\<exists>r. verifyTx net (the (getField ref ''tx_id'')) = Inr r)"
  shows "\<exists>errs' warns' reps'.
           verifyIdeas net refs errs warns reps = Inr (errs @ errs', warns @ warns', reps @ reps')
           \<and> map ir_tx_id reps'
               = map (\<lambda>ref. the (getField ref ''tx_id'')) (filter (\<lambda>ref. truthy (getField ref ''tx_id'')) refs)
           \<and> (\<forall>i\<in>set reps'. \<exists>r. verifyTx net (ir_tx_id i) = Inr r \<and> ir_ok i = tr_ok r
                  \<and> ir_errors i = tr_errors r \<and> ir_warnings i = tr_warnings r)"
  using assms
proof (induction refs arbitrary: errs warns reps)
  case Nil
  then show ?case by simp
next
  case (Cons ref rest)
  have rest: "\<forall>ref\<in>set rest. truthy (getField ref ''tx_id'') \<longrightarrow>
             (\<exists>r. verifyTx net (the (getField ref ''tx_id'')) = Inr r)"
    using Cons.prems by simp
  show ?case
  proof (cases "truthy (getField ref ''tx_id'')")
    case False
    from Cons.IH [OF rest, of errs warns reps] False show ?thesis
      by (simp del: verifyIdeas.simps add: verifyIdeas_skip)
  next
    case True
    then obtain r where r: "verifyTx net (the (getField ref ''tx_id'')) = Inr r"
      using Cons.prems by auto
    define label where "label = (if truthy (getField ref ''idea_id'') then the (getField ref ''idea_id'')
                           else the (getField ref ''tx_id''))"
    define e1 where "e1 = (if \<not> tr_ok r then map (IdeaError label) (tr_errors r) else [])"
    define w1 where "w1 = map (IdeaWarning label) (tr_warnings r)"
    define i1 where "i1 = \<lparr>ir_idea_id = (if truthy (getField ref ''idea_id'')
                                       then the (getField ref ''idea_id'') else JNull),
                        ir_tx_id = the (getField ref ''tx_id''),
                        ir_ok = tr_ok r, ir_errors = tr_errors r, ir_warnings = tr_warnings r\<rparr>"
    have step: "verifyIdeas net (ref # rest) errs warns reps
                  = verifyIdeas net rest (errs @ e1) (warns @ w1) (reps @ [i1])"
      using True r by (simp add: label_def e1_def w1_def i1_def Let_def)
    from Cons.IH [OF rest, of "errs @ e1" "warns @ w1" "reps @ [i1]"]
    obtain errs' warns' reps' where
      run: "verifyIdeas net rest (errs @ e1) (warns @ w1) (reps @ [i1])
              = Inr ((errs @ e1) @ errs', (warns @ w1) @ warns', (reps @ [i1]) @ reps')"
      and ids: "map ir_tx_id reps'
               = map (\<lambda>ref. the (getField ref ''tx_id'')) (filter (\<lambda>ref. truthy (getField ref ''tx_id'')) rest)"
      and own: "\<forall>i\<in>set reps'. \<exists>r. verifyTx net (ir_tx_id i) = Inr r \<and> ir_ok i = tr_ok r
                  \<and> ir_errors i = tr_errors r \<and> ir_warnings i = tr_warnings r"
      by blast
    have "verifyIdeas net (ref # rest) errs warns reps
            = Inr (errs @ (e1 @ errs'), warns @ (w1 @ warns'), reps @ (i1 # reps'))"
      using step run by simp
    moreover have "map ir_tx_id (i1 # reps')
               = map (\<lambda>ref. the (getField ref ''tx_id'')) (filter (\<lambda>ref. truthy (getField ref ''tx_id'')) (ref # rest))"
      using ids True by (simp add: i1_def)
    moreover have "\<forall>i\<in>set (i1 # reps'). \<exists>r. verifyTx net (ir_tx_id i) = Inr r \<and> ir_ok i = tr_ok r
                  \<and> ir_errors i = tr_errors r \<and> ir_warnings i = tr_warnings r"
      using own r by (simp add: i1_def)
    ultimately show ?thesis by blast
  qed
qed

lemma verifySelf_raises_with_idea:
  assumes "getLatestHead net selfId = Inr latest" and "truthy (getField latest ''id'')"
    and "verifyTx net (the (getField latest ''id'')) = Inr head"
    and "fetchJsonByTxId net (the (getField latest ''id'')) = Inr headPayload"
    and "getField headPayload ''snapshot_tx'' = Some (JStr stx)"
    and "verifyTx net (JStr stx) = Inr snapshot"
    and "fetchJsonByTxId net (JStr stx) = Inr snapshotPayload"
    and "asArray (getField snapshotPayload ''ideas'') = Some (ref # rest)"
    and "truthy (getField ref ''tx_id'')"
    and "verifyTx net (the (getField ref ''tx_id'')) = Inl e"
  shows "verifySelf net selfId = Inl e"
  using assms by (simp add: verifySelf_def Let_def del: verifyIdeas.simps add: verifyIdeas_raises)

lemma verifySelf_reports_each_idea:
  assumes "getLatestHead net selfId = Inr latest" and "truthy (getField latest ''id'')"
    and "verifyTx net (the (getField latest ''id'')) = Inr head"
    and "fetchJsonByTxId net (the (getField latest ''id'')) = Inr headPayload"
    and "getField headPayload ''snapshot_tx'' = Some (JStr stx)"
    and "verifyTx net (JStr stx) = Inr snapshot"
    and "fetchJsonByTxId net (JStr stx) = Inr snapshotPayload"
    and "asArray (getField snapshotPayload ''ideas'') = Some refs"
    and all: "\<forall>ref\<in>set refs. truthy (getField ref ''tx_id'') \<longrightarrow>
             (\<exists>r. verifyTx net (the (getField ref ''tx_id'')) = Inr r)"
  shows "\<exists>rep reps. verifySelf net selfId = Inr rep \<and> sr_idea_reports rep = Some reps
           \<and> map ir_tx_id reps
               = map (\<lambda>ref. the (getField ref ''tx_id'')) (filter (\<lambda>ref. truthy (getField ref ''tx_id'')) refs)
           \<and> (\<forall>i\<in>set reps. \<exists>r. verifyTx net (ir_tx_id i) = Inr r \<and> ir_ok i = tr_ok r
                  \<and> ir_errors i = tr_errors r \<and> ir_warnings i = tr_warnings r)"
proof -
  define errors2 where "errors2 = (if \<not> tr_ok head then map HeadError (tr_errors head) else [])
      @ (if \<not> tr_ok snapshot then map SnapshotError (tr_errors snapshot) else [])"
  define warnings2 where "warnings2 = map HeadWarning (tr_warnings head)
      @ map SnapshotWarning (tr_warnings snapshot)"
  from verifyIdeas_reports [OF all, of errors2 warnings2 "[]"]
  obtain errs' warns' reps' where
    run: "verifyIdeas net refs errors2 warnings2 [] = Inr (errors2 @ errs', warnings2 @ warns', [] @ reps')"
    and ids: "map ir_tx_id reps'
               = map (\<lambda>ref. the (getField ref ''tx_id'')) (filter (\<lambda>ref. truthy (getField ref ''tx_id'')) refs)"
    and own: "\<forall>i\<in>set reps'. \<exists>r. verifyTx net (ir_tx_id i) = Inr r \<and> ir_ok i = tr_ok r
                  \<and> ir_errors i = tr_errors r \<and> ir_warnings i = tr_warnings r"
    by blast
  have "\<exists>rep. verifySelf net selfId = Inr rep \<and> sr_idea_reports rep = Some reps'"
    using assms(1-8) run
    by (simp add: verifySelf_def Let_def errors2_def warnings2_def del: verifyIdeas.simps)
  with ids own show ?thesis by blast
qed

text \<open>
  Claim C3. The claim is that a failure on one idea, its transaction being unfetchable
  included, is recorded in that idea's report and does not stop the checks of the other
  ideas. The code does not do this. On the chain above, with \<open>IDEA1\<close> indexed by the query
  service and its payload served by no gateway (both answer 404), \<open>fetchJsonByTxId\<close>
  throws for \<open>IDEA1\<close>, so \<open>verifyTx\<close> throws, and \<open>verifySelf\<close> throws the same error: no
  report is returned, although \<open>IDEA2\<close> verifies with \<open>ok = true\<close> on its own. Where
  \<open>IDEA1\<close> is instead missing from the index, \<open>verifySelf\<close> does return the report that
  the claim describes: \<open>ok = false\<close>, the report of \<open>IDEA1\<close> with the error "Tx not found",
  and the report of \<open>IDEA2\<close> with \<open>ok = true\<close>.
\<close>

theorem verifySelf_unfetchable_idea_raises:
  "getTxMeta unfetchable_idea_net [JStr ''IDEA1''] = Inr [Some (afterlife_node ''IDEA1'' ''Idea'')]
   \<and> fetchJsonByTxId unfetchable_idea_net (JStr ''IDEA1'') = Inl (HttpStatus ''https://ar-io.dev/IDEA1'' 404)
   \<and> verifyTx unfetchable_idea_net (JStr ''IDEA1'') = Inl (HttpStatus ''https://ar-io.dev/IDEA1'' 404)
   \<and> map_sum id tr_ok (verifyTx unfetchable_idea_net (JStr ''IDEA2'')) = Inr True
   \<and> verifySelf unfetchable_idea_net ''self-abc'' = Inl (HttpStatus ''https://ar-io.dev/IDEA1'' 404)
   \<and> map_sum id (\<lambda>rep. (sr_ok rep, map_option (map (\<lambda>i. (ir_tx_id i, ir_ok i, ir_errors i))) (sr_idea_reports rep)))
        (verifySelf unindexed_idea_net ''self-abc'')
       = Inr (False, Some [(JStr ''IDEA1'', False, [TxNotFound (JStr ''IDEA1'')]),
                           (JStr ''IDEA2'', True, [])])"
  by code_simp

end
